theory Spec2Isabelle
  imports Complex_Main
begin

section \<open>JavaScript numbers\<close>

text \<open>
  A JavaScript number is modelled by its mathematical value: a finite double is the real
  it denotes (rounding is not modelled), and the three non-finite values are constructors
  of their own, so that \<open>Number.isFinite\<close>, \<open>isFinite\<close> and the truthiness tests of the
  source are case distinctions of the model.
\<close>

datatype jsnum = Fin real | PInf | NInf | NaN

text \<open>\<open>Math.ceil\<close> on a finite number.\<close>

definition ceil :: "real \<Rightarrow> real" where
  "ceil v = real_of_int \<lceil>v\<rceil>"

section \<open>Host height reconciler: \<open>src/hooks/useAutoHeight.ts\<close>\<close>

text \<open>
  \<open>rawValue: unknown\<close>: either a value with \<open>typeof rawValue === 'number'\<close>, kept as it
  is, or any other value, which goes through the built-in \<open>Number(rawValue)\<close>. The
  built-in is a parameter \<open>number\<close> of the model.
\<close>

datatype 'a payload = Num jsnum | Other 'a

text \<open>
  The hook's state: the options of the latest render, the React state \<open>height\<close>, the three
  refs, and the part of the host the hook talks to. \<open>onHeightChange\<close> is \<open>None\<close> when the
  option is absent and \<open>Some k\<close> for the function of identity \<open>k\<close>. The host part is:
  whether \<open>globalThis.requestAnimationFrame\<close> and \<open>globalThis.cancelAnimationFrame\<close>
  are functions, the frame callbacks requested and not yet run or cancelled (each with
  the \<open>onHeightChange\<close> its closure captured), the number of requests made so far (the
  host hands out the ids 1, 2, ...), and the calls of \<open>onHeightChange\<close> made so far, in
  order, each with the identity of the function called.
\<close>

record reconciler =
  minHeight :: real
  onHeightChange :: "nat option"
  height :: real
  lastHeightRef :: real
  frameRef :: "nat option"
  pendingHeightRef :: "real option"
  mounted :: bool
  hasRequestFrame :: bool
  hasCancelFrame :: bool
  rafQueue :: "(nat \<times> nat option) list"
  rafCount :: nat
  notified :: "(nat \<times> real) list"

definition HEIGHT_DIFF_THRESHOLD :: real where
  "HEIGHT_DIFF_THRESHOLD = 1"

text \<open>
  \<open>commitHeight\<close>, with the \<open>onHeightChange\<close> of the closure it was created in. React drops
  \<open>setHeight\<close> on a component that is no longer mounted; \<open>onHeightChange?.(nextHeight)\<close>
  calls the function when there is one.
\<close>

definition commitHeight :: "nat option \<Rightarrow> real \<Rightarrow> reconciler \<Rightarrow> reconciler" where
  "commitHeight cb nextHeight s =
     s\<lparr>lastHeightRef := nextHeight,
       height := (if mounted s then nextHeight else height s),
       notified := (case cb of None \<Rightarrow> notified s
                    | Some k \<Rightarrow> notified s @ [(k, nextHeight)])\<rparr>"

definition flushPendingHeight :: "nat option \<Rightarrow> reconciler \<Rightarrow> reconciler" where
  "flushPendingHeight cb s =
     (let s1 = s\<lparr>frameRef := None\<rparr>;
          pending = pendingHeightRef s1;
          s2 = s1\<lparr>pendingHeightRef := None\<rparr>
      in case pending of
           Some p \<Rightarrow> commitHeight cb p s2
         | None \<Rightarrow> s2)"

definition scheduleCommit :: "nat option \<Rightarrow> real \<Rightarrow> reconciler \<Rightarrow> reconciler" where
  "scheduleCommit cb nextHeight s =
     (let s1 = s\<lparr>pendingHeightRef := Some nextHeight\<rparr>
      in if frameRef s1 \<noteq> None then s1
         else if hasRequestFrame s1 then
           s1\<lparr>frameRef := Some (Suc (rafCount s1)),
              rafQueue := rafQueue s1 @ [(Suc (rafCount s1), cb)],
              rafCount := Suc (rafCount s1)\<rparr>
         else flushPendingHeight cb s1)"

definition setHeightFromPayload ::
  "('a \<Rightarrow> jsnum) \<Rightarrow> 'a payload \<Rightarrow> reconciler \<Rightarrow> reconciler" where
  "setHeightFromPayload number rawValue s =
     (let numericValue = (case rawValue of Num n \<Rightarrow> n | Other x \<Rightarrow> number x)
      in case numericValue of
           Fin v \<Rightarrow>
             if v \<le> 0 then s
             else
               let nextHeight = max (minHeight s) (ceil v)
               in if \<bar>nextHeight - lastHeightRef s\<bar> \<le> HEIGHT_DIFF_THRESHOLD then s
                  else scheduleCommit (onHeightChange s) nextHeight s
         | _ \<Rightarrow> s)"

text \<open>The body of the effect with dependencies \<open>[minHeight, scheduleCommit]\<close>.\<close>

definition minHeightEffect :: "reconciler \<Rightarrow> reconciler" where
  "minHeightEffect s =
     (if minHeight s > lastHeightRef s
      then scheduleCommit (onHeightChange s) (ceil (minHeight s)) s
      else s)"

text \<open>
  The first render and its effects, in a host that has or lacks the two frame functions:
  \<open>useState(() => Math.max(minHeight, 1))\<close>, the refs, then the effect above.
\<close>

definition useAutoHeight :: "bool \<Rightarrow> bool \<Rightarrow> real \<Rightarrow> nat option \<Rightarrow> reconciler" where
  "useAutoHeight request cancel m cb =
     minHeightEffect
       \<lparr>minHeight = m, onHeightChange = cb,
        height = max m 1, lastHeightRef = max m 1,
        frameRef = None, pendingHeightRef = None, mounted = True,
        hasRequestFrame = request, hasCancelFrame = cancel,
        rafQueue = [], rafCount = 0, notified = []\<rparr>"

text \<open>
  A later render with new options. \<open>scheduleCommit\<close> is rebuilt exactly when
  \<open>onHeightChange\<close> is another function, so the effect runs again when \<open>minHeight\<close> or
  \<open>onHeightChange\<close> changed. A component that is not mounted does not render.
\<close>

definition rerender :: "real \<Rightarrow> nat option \<Rightarrow> reconciler \<Rightarrow> reconciler" where
  "rerender m cb s =
     (if \<not> mounted s then s
      else
        let s1 = s\<lparr>minHeight := m, onHeightChange := cb\<rparr>
        in if m \<noteq> minHeight s \<or> cb \<noteq> onHeightChange s then minHeightEffect s1 else s1)"

text \<open>
  The host runs the frame callback of id \<open>i\<close>, if it is still requested:
  \<open>() => { flushPendingHeight(); }\<close>.
\<close>

definition runFrameCallback :: "nat \<Rightarrow> reconciler \<Rightarrow> reconciler" where
  "runFrameCallback i s =
     (case map_of (rafQueue s) i of
        None \<Rightarrow> s
      | Some cb \<Rightarrow> flushPendingHeight cb (s\<lparr>rafQueue := filter (\<lambda>e. fst e \<noteq> i) (rafQueue s)\<rparr>))"

text \<open>The cleanup of the unmount effect.\<close>

definition unmount :: "reconciler \<Rightarrow> reconciler" where
  "unmount s =
     (let s1 = s\<lparr>mounted := False\<rparr>
      in case frameRef s1 of
           Some i \<Rightarrow>
             if hasCancelFrame s1
             then s1\<lparr>rafQueue := filter (\<lambda>e. fst e \<noteq> i) (rafQueue s1)\<rparr>
             else s1
         | None \<Rightarrow> s1)"

text \<open>What can happen to a reconciler after its first render, and runs of such events.\<close>

datatype 'a event = Ingest "'a payload" | Rerender real "nat option" | Frame nat | Unmount

fun step :: "('a \<Rightarrow> jsnum) \<Rightarrow> 'a event \<Rightarrow> reconciler \<Rightarrow> reconciler" where
  "step number (Ingest p) s = setHeightFromPayload number p s"
| "step number (Rerender m cb) s = rerender m cb s"
| "step number (Frame i) s = runFrameCallback i s"
| "step number Unmount s = unmount s"

fun run :: "('a \<Rightarrow> jsnum) \<Rightarrow> 'a event list \<Rightarrow> reconciler \<Rightarrow> reconciler" where
  "run number [] s = s"
| "run number (e # es) s = run number es (step number e s)"

text \<open>The states a run passes through, the first one included.\<close>

fun trace :: "('a \<Rightarrow> jsnum) \<Rightarrow> 'a event list \<Rightarrow> reconciler \<Rightarrow> reconciler list" where
  "trace number [] s = [s]"
| "trace number (e # es) s = s # trace number es (step number e s)"

text \<open>
  Single flight: the frame request recorded in \<open>frameRef\<close> is the only one outstanding.
\<close>

definition single_flight :: "reconciler \<Rightarrow> bool" where
  "single_flight s =
     (case frameRef s of None \<Rightarrow> rafQueue s = [] | Some i \<Rightarrow> map fst (rafQueue s) = [i])"

text \<open>
  The floor: the committed height, as React state and as ref, is at least the configured
  minimum.
\<close>

definition floored :: "reconciler \<Rightarrow> bool" where
  "floored s = (minHeight s \<le> height s \<and> minHeight s \<le> lastHeightRef s)"

text \<open>
  What holds also while the floor is broken: a pending value is at least the minimum, and
  with nothing pending the ref is; the React state of a mounted component equals the ref;
  and a host without a frame function never has anything pending or scheduled.
\<close>

definition pending_covers :: "reconciler \<Rightarrow> bool" where
  "pending_covers s =
     ((case pendingHeightRef s of
         None \<Rightarrow> minHeight s \<le> lastHeightRef s
       | Some p \<Rightarrow> minHeight s \<le> p)
      \<and> (mounted s \<longrightarrow> height s = lastHeightRef s)
      \<and> (hasRequestFrame s \<or> pendingHeightRef s = None \<and> frameRef s = None))"

text \<open>
  Two kinds of render: one that raises \<open>minHeight\<close> above the committed height (the
  effect then schedules the new minimum), and one that raises it above a value that is
  pending while staying within the committed height (the effect then does nothing and
  the pending value stays).
\<close>

fun raises_above :: "'a event \<Rightarrow> reconciler \<Rightarrow> bool" where
  "raises_above (Rerender m cb) s = (mounted s \<and> lastHeightRef s < m)"
| "raises_above e s = False"

fun raises_over_pending :: "'a event \<Rightarrow> reconciler \<Rightarrow> bool" where
  "raises_over_pending (Rerender m cb) s =
     (mounted s \<and> m \<le> lastHeightRef s
      \<and> (case pendingHeightRef s of None \<Rightarrow> False | Some p \<Rightarrow> p < m))"
| "raises_over_pending e s = False"

fun no_raise_over_pending :: "('a \<Rightarrow> jsnum) \<Rightarrow> 'a event list \<Rightarrow> reconciler \<Rightarrow> bool" where
  "no_raise_over_pending number [] s = True"
| "no_raise_over_pending number (e # es) s =
     (\<not> raises_over_pending e s \<and> no_raise_over_pending number es (step number e s))"

fun no_raise_above :: "('a \<Rightarrow> jsnum) \<Rightarrow> 'a event list \<Rightarrow> reconciler \<Rightarrow> bool" where
  "no_raise_above number [] s = True"
| "no_raise_above number (e # es) s =
     (\<not> raises_above e s \<and> no_raise_above number es (step number e s))"

section \<open>Script composer: \<open>src/utils/composeInjectedScript.ts\<close>\<close>

text \<open>
  A chunk is \<open>string | undefined\<close>. \<open>chunks.filter(Boolean)\<close> keeps the chunks that are
  truthy: defined and not the empty string.
\<close>

fun filterBoolean :: "string option list \<Rightarrow> string list" where
  "filterBoolean [] = []"
| "filterBoolean (None # cs) = filterBoolean cs"
| "filterBoolean (Some c # cs) = (if c = [] then filterBoolean cs else c # filterBoolean cs)"

text \<open>\<open>Array.prototype.join\<close> on strings.\<close>

fun join :: "string \<Rightarrow> string list \<Rightarrow> string" where
  "join sep [] = []"
| "join sep [p] = p"
| "join sep (p # q # ps) = p @ sep @ join sep (q # ps)"

definition newline :: string where
  "newline = [CHR 0x0A]"

definition composeInjectedScript :: "string option list \<Rightarrow> string option" where
  "composeInjectedScript chunks =
     (let parts = filterBoolean chunks
      in if length parts = 0 then None
         else Some (join newline parts @ newline @ ''true;''))"

section \<open>In-content measurement agent: \<open>src/constants/autoHeightBridge.ts\<close>\<close>

text \<open>
  The bridge script in its revision with a session object under
  \<open>window.__RN_SIZED_WEBVIEW__\<close> and the anomaly guard. One record holds the fields of the
  script's \<open>state\<close> object and the part of the window the script talks to:
  \<^item> \<open>globalKey\<close>: \<open>window[GLOBAL_KEY]\<close> is truthy (it then holds this \<open>state\<close>);
  \<^item> \<open>frame\<close> to \<open>cleanup\<close>: the fields of \<open>state\<close>; a registered cleanup function is
    recorded by what it undoes;
  \<^item> \<open>channel\<close>: \<open>window.ReactNativeWebView\<close> is missing, or its \<open>postMessage\<close> takes the
    message, or it throws; \<open>posted\<close>: the heights whose message the channel took, in order
    (\<open>String(sanitized)\<close> is recorded as the number);
  \<^item> \<open>layout\<close> and \<open>measured\<close>: the \<open>n\<close>-th call of \<open>measureHeight\<close> gathers the values
    \<open>layout n\<close> from the geometry of the wrapper, body and root elements and
    \<open>window.innerHeight\<close>, and \<open>measured\<close> counts the calls so far;
  \<^item> the timers of the window: the handles given out so far, the frame requests and the
    timeouts (with their delay) that are still pending;
  \<^item> what the document offers: the frame functions, the observers, the visual viewport and
    font events, whether \<open>document.readyState\<close> is \<open>interactive\<close> or \<open>complete\<close>, and
    whether \<open>ensureDomReady\<close> left a handler waiting for that.
  The content of the document is outside the model: the base styles, the wrapper element,
  the pruning of trailing nodes and the scan for media elements leave no trace in the record.
\<close>

datatype channel = Absent | Accepting | Throwing

datatype registration =
    Listener string string
  | Disconnect string
  | ClearTimeout nat

record agent =
  globalKey :: bool
  frame :: "nat option"
  timer :: "nat option"
  microtask :: bool
  pendingLoads :: int
  lastHeight :: real
  lastCssHeight :: jsnum
  anomalyCount :: nat
  fallbackTimer :: "nat option"
  fallbackDelay :: nat
  cleanup :: "registration list"
  channel :: channel
  posted :: "real list"
  layout :: "nat \<Rightarrow> real list"
  measured :: nat
  handleSeq :: nat
  frames :: "nat list"
  timeouts :: "(nat \<times> nat) list"
  hasRequestAnimationFrame :: bool
  hasCancelAnimationFrame :: bool
  hasMutationObserver :: bool
  hasResizeObserver :: bool
  hasVisualViewport :: bool
  hasFontEvents :: bool
  ready :: bool
  awaitingReady :: bool

definition INITIAL_FALLBACK_MS :: nat where
  "INITIAL_FALLBACK_MS = 600"

definition MAX_FALLBACK_MS :: nat where
  "MAX_FALLBACK_MS = 4000"

text \<open>\<open>window.setTimeout\<close> and \<open>clearTimeout\<close>: a fresh handle, and the timeout forgotten.\<close>

definition setTimeout :: "nat \<Rightarrow> agent \<Rightarrow> nat \<times> agent" where
  "setTimeout delay s =
     (Suc (handleSeq s),
      s\<lparr>handleSeq := Suc (handleSeq s),
        timeouts := timeouts s @ [(Suc (handleSeq s), delay)]\<rparr>)"

definition clearTimeout :: "nat \<Rightarrow> agent \<Rightarrow> agent" where
  "clearTimeout i s = s\<lparr>timeouts := filter (\<lambda>e. fst e \<noteq> i) (timeouts s)\<rparr>"

definition requestFrame :: "agent \<Rightarrow> nat \<times> agent" where
  "requestFrame s =
     (if hasRequestAnimationFrame s
      then (Suc (handleSeq s),
            s\<lparr>handleSeq := Suc (handleSeq s), frames := frames s @ [Suc (handleSeq s)]\<rparr>)
      else setTimeout 16 s)"

definition cancelFrame :: "nat \<Rightarrow> agent \<Rightarrow> agent" where
  "cancelFrame i s =
     (if hasCancelAnimationFrame s
      then s\<lparr>frames := filter (\<lambda>j. j \<noteq> i) (frames s)\<rparr>
      else clearTimeout i s)"

definition addCleanup :: "registration \<Rightarrow> agent \<Rightarrow> agent" where
  "addCleanup r s = s\<lparr>cleanup := cleanup s @ [r]\<rparr>"

text \<open>\<open>addEvent\<close> on a target that has \<open>addEventListener\<close>: the listener and its removal.\<close>

definition addEvent :: "string \<Rightarrow> string \<Rightarrow> agent \<Rightarrow> agent" where
  "addEvent target type s = addCleanup (Listener target type) s"

definition scheduleTimeout :: "nat \<Rightarrow> agent \<Rightarrow> agent" where
  "scheduleTimeout delay s =
     (let (i, s1) = setTimeout delay s in addCleanup (ClearTimeout i) s1)"

definition scheduleFallback :: "agent \<Rightarrow> agent" where
  "scheduleFallback s =
     (if fallbackTimer s \<noteq> None then s
      else let (i, s1) = setTimeout (fallbackDelay s) s in s1\<lparr>fallbackTimer := Some i\<rparr>)"

definition resetFallback :: "agent \<Rightarrow> agent" where
  "resetFallback s =
     (let s1 = s\<lparr>fallbackDelay := INITIAL_FALLBACK_MS\<rparr>;
          s2 = (case fallbackTimer s1 of
                  Some i \<Rightarrow> (clearTimeout i s1)\<lparr>fallbackTimer := None\<rparr>
                | None \<Rightarrow> s1)
      in scheduleFallback s2)"

definition markLoading :: "agent \<Rightarrow> agent" where
  "markLoading s = scheduleFallback (s\<lparr>pendingLoads := pendingLoads s + 1\<rparr>)"

definition clearLoading :: "agent \<Rightarrow> agent" where
  "clearLoading s =
     (if pendingLoads s > 0 then s\<lparr>pendingLoads := pendingLoads s - 1\<rparr> else s)"

text \<open>\<open>readMaxValue\<close>: the loop keeps the largest value above 0.\<close>

definition readMaxValue :: "real list \<Rightarrow> real" where
  "readMaxValue values = foldl (\<lambda>mx v. if v > mx then v else mx) 0 values"

definition measureHeight :: "agent \<Rightarrow> real \<times> agent" where
  "measureHeight s =
     (max 0 (ceil (readMaxValue (layout s (measured s)))), s\<lparr>measured := Suc (measured s)\<rparr>)"

text \<open>
  \<open>postHeight\<close>, \<open>scheduleMeasure\<close> and \<open>runMeasure\<close> call one another: a sample above
  100000 that is not yet the third in a row makes \<open>postHeight\<close> call
  \<open>scheduleMeasure(true)\<close>, which measures and posts again at once. The count of such
  samples grows with every round, which bounds the recursion.
\<close>

function postHeight :: "jsnum \<Rightarrow> agent \<Rightarrow> agent"
  and scheduleMeasure :: "bool \<Rightarrow> agent \<Rightarrow> agent"
  and runMeasure :: "agent \<Rightarrow> agent"
where
  "postHeight h s =
     (case h of
        NaN \<Rightarrow> s
      | NInf \<Rightarrow> s
      | PInf \<Rightarrow> s\<lparr>lastCssHeight := PInf\<rparr>
      | Fin v \<Rightarrow>
          if v \<le> 0 then s
          else
            let s1 = s\<lparr>lastCssHeight := Fin v\<rparr>;
                sanitized = ceil v;
                s2 = (if sanitized > 100000
                      then s1\<lparr>anomalyCount := anomalyCount s1 + 1\<rparr>
                      else s1\<lparr>anomalyCount := 0\<rparr>)
            in if sanitized > 100000 \<and> anomalyCount s2 < 3 then scheduleMeasure True s2
               else if lastHeight s2 = sanitized then s2
               else
                 let s3 = s2\<lparr>lastHeight := sanitized\<rparr>
                 in case channel s3 of
                      Accepting \<Rightarrow> s3\<lparr>posted := posted s3 @ [sanitized]\<rparr>
                    | _ \<Rightarrow> s3)"
| "scheduleMeasure force s =
     (if force then
        let s1 = (case frame s of
                    Some i \<Rightarrow> (cancelFrame i s)\<lparr>frame := None\<rparr>
                  | None \<Rightarrow> s);
            s2 = (case timer s1 of
                    Some i \<Rightarrow> (clearTimeout i s1)\<lparr>timer := None\<rparr>
                  | None \<Rightarrow> s1)
        in runMeasure s2
      else if frame s \<noteq> None then s
      else let (i, s1) = requestFrame s in s1\<lparr>frame := Some i\<rparr>)"
| "runMeasure s =
     (let s1 = s\<lparr>frame := None\<rparr>;
          (h, s2) = measureHeight s1;
          s3 = (if h \<noteq> 0 then postHeight (Fin h) s2 else s2)
      in resetFallback s3)"
  by pat_completeness auto
termination
  apply (relation "measure (\<lambda>x. case x of
            Inl (h, s) \<Rightarrow> 3 * (3 - anomalyCount s)
          | Inr (Inl (force, s)) \<Rightarrow> 3 * (3 - anomalyCount s) + 2
          | Inr (Inr s) \<Rightarrow> 3 * (3 - anomalyCount s) + 1)")
     apply (auto simp: measureHeight_def cancelFrame_def clearTimeout_def
      split: option.splits if_splits)
  done

declare postHeight.simps [simp del] scheduleMeasure.simps [simp del] runMeasure.simps [simp del]

text \<open>The callback of the fallback timer of handle \<open>i\<close>, when the window runs it.\<close>

definition fallbackFired :: "nat \<Rightarrow> agent \<Rightarrow> agent" where
  "fallbackFired i s =
     (let s1 = s\<lparr>timeouts := filter (\<lambda>e. fst e \<noteq> i) (timeouts s), fallbackTimer := None\<rparr>;
          s2 = scheduleMeasure True s1;
          s3 = s2\<lparr>fallbackDelay := min MAX_FALLBACK_MS ((fallbackDelay s2 * 3) div 2)\<rparr>
      in scheduleFallback s3)"

text \<open>\<open>state.refresh\<close> (its \<open>ensureWrapper()\<close> works on the document only).\<close>

definition refresh :: "agent \<Rightarrow> agent" where
  "refresh s = scheduleMeasure True s"

definition observeMutations :: "agent \<Rightarrow> agent" where
  "observeMutations s =
     (if hasMutationObserver s then addCleanup (Disconnect ''MutationObserver'') s else s)"

definition observeResize :: "agent \<Rightarrow> agent" where
  "observeResize s =
     (if hasResizeObserver s then addCleanup (Disconnect ''ResizeObserver'') s else s)"

definition observeViewport :: "agent \<Rightarrow> agent" where
  "observeViewport s =
     (if hasVisualViewport s
      then addEvent ''visualViewport'' ''scroll'' (addEvent ''visualViewport'' ''resize'' s)
      else s)"

definition observeFonts :: "agent \<Rightarrow> agent" where
  "observeFonts s =
     (if hasFontEvents s
      then addEvent ''fonts'' ''loadingerror'' (addEvent ''fonts'' ''loadingdone'' s)
      else s)"

definition observeGlobalEvents :: "agent \<Rightarrow> agent" where
  "observeGlobalEvents s =
     (let s1 = foldl (\<lambda>t e. addEvent ''window'' e t) s
                 [''load'', ''pageshow'', ''orientationchange'', ''resize''];
          s2 = addEvent ''document'' ''DOMContentLoaded'' s1
      in addEvent ''document'' ''readystatechange'' s2)"

definition watchMessages :: "agent \<Rightarrow> agent" where
  "watchMessages s = addEvent ''window'' ''message'' s"

definition queueStabilization :: "agent \<Rightarrow> agent" where
  "queueStabilization s =
     foldl (\<lambda>t delay. scheduleTimeout delay t) s [32, 120, 240, 500, 1000, 2000, 3200]"

definition bootstrap :: "agent \<Rightarrow> agent" where
  "bootstrap s =
     (let s1 = observeMutations s;
          s2 = observeResize s1;
          s3 = observeViewport s2;
          s4 = observeFonts s3;
          s5 = observeGlobalEvents s4;
          s6 = watchMessages s5;
          s7 = queueStabilization s6;
          s8 = addEvent ''window'' ''unload'' s7;
          s9 = scheduleMeasure True s8
      in scheduleFallback s9)"

definition ensureDomReady :: "agent \<Rightarrow> agent" where
  "ensureDomReady s = (if ready s then bootstrap s else s\<lparr>awaitingReady := True\<rparr>)"

text \<open>The handler \<open>ensureDomReady\<close> left behind, when the document becomes ready.\<close>

definition domReady :: "agent \<Rightarrow> agent" where
  "domReady s =
     (let s1 = s\<lparr>ready := True\<rparr>
      in if awaitingReady s1 then bootstrap (s1\<lparr>awaitingReady := False\<rparr>) else s1)"

text \<open>
  One run of the injected script: the guard on \<open>window[GLOBAL_KEY]\<close>, and otherwise a new
  \<open>state\<close> stored under the key and the bootstrap, at once or when the document is ready.
\<close>

definition install :: "agent \<Rightarrow> agent" where
  "install s =
     (if globalKey s then refresh s
      else ensureDomReady
             (s\<lparr>globalKey := True, frame := None, timer := None, microtask := False,
                pendingLoads := 0, lastHeight := 0, lastCssHeight := Fin 0,
                anomalyCount := 0, fallbackTimer := None,
                fallbackDelay := INITIAL_FALLBACK_MS, cleanup := []\<rparr>))"

text \<open>A document in which the script has not run.\<close>

definition document :: "channel \<Rightarrow> (nat \<Rightarrow> real list) \<Rightarrow> bool \<Rightarrow> agent" where
  "document ch lay rdy =
     \<lparr>globalKey = False, frame = None, timer = None, microtask = False,
      pendingLoads = 0, lastHeight = 0, lastCssHeight = Fin 0, anomalyCount = 0,
      fallbackTimer = None, fallbackDelay = INITIAL_FALLBACK_MS, cleanup = [],
      channel = ch, posted = [], layout = lay, measured = 0,
      handleSeq = 0, frames = [], timeouts = [],
      hasRequestAnimationFrame = True, hasCancelAnimationFrame = True,
      hasMutationObserver = True, hasResizeObserver = True,
      hasVisualViewport = True, hasFontEvents = True,
      ready = rdy, awaitingReady = False\<rparr>"

text \<open>Calls of \<open>markLoading\<close> and \<open>clearLoading\<close>, in any order.\<close>

datatype loading = MarkLoading | ClearLoading

fun loadingStep :: "loading \<Rightarrow> agent \<Rightarrow> agent" where
  "loadingStep MarkLoading s = markLoading s"
| "loadingStep ClearLoading s = clearLoading s"

fun loadingTrace :: "loading list \<Rightarrow> agent \<Rightarrow> agent list" where
  "loadingTrace [] s = [s]"
| "loadingTrace (c # cs) s = s # loadingTrace cs (loadingStep c s)"

subsection \<open>The revision guarded by a flag\<close>

text \<open>
  The revision of the bridge script without a session object, as far as a run of the
  script goes: the four globals it keeps (\<open>window.__AUTO_HEIGHT_INITIALIZED__\<close>,
  \<open>__AUTO_HEIGHT_PENDING__\<close>, \<open>__AUTO_HEIGHT_RAF__\<close>, \<open>__AUTO_HEIGHT_TIMEOUT__\<close>), the
  listeners and observers attached so far, the handles given out, the frame requests and
  timeouts still pending, and what the window offers. The document has a body; its
  styles are outside the model.
\<close>

record flagged =
  initialized :: bool
  updatePending :: bool
  updateFrame :: "nat option"
  updateTimeout :: "nat option"
  attached :: "registration list"
  handles :: nat
  requestedFrames :: "nat list"
  armedTimeouts :: "(nat \<times> nat) list"
  withMutationObserver :: bool
  withResizeObserver :: bool
  withVisualViewport :: bool
  withFontEvents :: bool

definition DEBOUNCE_DELAY_MS :: nat where
  "DEBOUNCE_DELAY_MS = 80"

definition runHeightUpdate :: "flagged \<Rightarrow> flagged" where
  "runHeightUpdate w =
     (let w1 = (case updateFrame w of
                  Some i \<Rightarrow> w\<lparr>requestedFrames := filter (\<lambda>j. j \<noteq> i) (requestedFrames w)\<rparr>
                | None \<Rightarrow> w)
      in w1\<lparr>handles := Suc (handles w1),
            requestedFrames := requestedFrames w1 @ [Suc (handles w1)],
            updateFrame := Some (Suc (handles w1))\<rparr>)"

definition scheduleHeightUpdate :: "flagged \<Rightarrow> flagged" where
  "scheduleHeightUpdate w =
     (let w1 = (if \<not> updatePending w then runHeightUpdate (w\<lparr>updatePending := True\<rparr>) else w);
          w2 = (case updateTimeout w1 of
                  Some i \<Rightarrow> w1\<lparr>armedTimeouts := filter (\<lambda>e. fst e \<noteq> i) (armedTimeouts w1)\<rparr>
                | None \<Rightarrow> w1)
      in w2\<lparr>handles := Suc (handles w2),
            armedTimeouts := armedTimeouts w2 @ [(Suc (handles w2), DEBOUNCE_DELAY_MS)],
            updateTimeout := Some (Suc (handles w2))\<rparr>)"

definition attach :: "registration \<Rightarrow> flagged \<Rightarrow> flagged" where
  "attach r w = w\<lparr>attached := attached w @ [r]\<rparr>"

definition attachMutationObserver :: "flagged \<Rightarrow> flagged" where
  "attachMutationObserver w =
     (if withMutationObserver w then attach (Disconnect ''MutationObserver'') w else w)"

definition attachResizeObserver :: "flagged \<Rightarrow> flagged" where
  "attachResizeObserver w =
     (if withResizeObserver w then attach (Disconnect ''ResizeObserver'') w else w)"

definition attachVisualViewport :: "flagged \<Rightarrow> flagged" where
  "attachVisualViewport w =
     (if withVisualViewport w
      then attach (Listener ''visualViewport'' ''scroll'')
             (attach (Listener ''visualViewport'' ''resize'') w)
      else w)"

definition attachFontLoadListeners :: "flagged \<Rightarrow> flagged" where
  "attachFontLoadListeners w =
     (if withFontEvents w
      then attach (Listener ''fonts'' ''loadingerror'')
             (attach (Listener ''fonts'' ''loadingdone'') w)
      else w)"

definition attachGlobalListeners :: "flagged \<Rightarrow> flagged" where
  "attachGlobalListeners w =
     (let w1 = foldl (\<lambda>t e. attach (Listener ''window'' e) t) w
                 [''load'', ''pageshow'', ''orientationchange'', ''resize'',
                  ''DOMContentLoaded'']
      in attach (Listener ''document'' ''readystatechange'') w1)"

definition bootstrap_flag :: "flagged \<Rightarrow> flagged" where
  "bootstrap_flag w =
     (let w1 = attachMutationObserver w;
          w2 = attachResizeObserver w1;
          w3 = attachVisualViewport w2;
          w4 = attachFontLoadListeners w3;
          w5 = attachGlobalListeners w4;
          w6 = scheduleHeightUpdate w5
      in foldl (\<lambda>t delay. t\<lparr>handles := Suc (handles t),
                               armedTimeouts := armedTimeouts t @ [(Suc (handles t), delay)]\<rparr>)
           w6 [16, 60, 180, 500, 1000, 2000])"

definition install_flag :: "flagged \<Rightarrow> flagged" where
  "install_flag w =
     (if initialized w then w
      else bootstrap_flag (attach (Listener ''window'' ''message'') (w\<lparr>initialized := True\<rparr>)))"

definition document_flag :: flagged where
  "document_flag =
     \<lparr>initialized = False, updatePending = False, updateFrame = None, updateTimeout = None,
      attached = [], handles = 0, requestedFrames = [], armedTimeouts = [],
      withMutationObserver = True, withResizeObserver = True,
      withVisualViewport = True, withFontEvents = True\<rparr>"

text \<open>
  What a call of \<open>postHeight\<close>, \<open>scheduleMeasure\<close> or \<open>runMeasure\<close> leaves alone and what
  it may do: the channel, the registered cleanups, the key, the load counter and the
  readiness of the document stay as they were, measurements are only added, and the channel has taken
  either nothing new or exactly the height now recorded in \<open>lastHeight\<close>, which is then
  positive, differs from the one recorded before, and, if above 100000, comes with an
  anomaly count of at least three.
\<close>

definition measure_frame :: "agent \<Rightarrow> agent \<Rightarrow> bool" where
  "measure_frame s s' =
     (channel s' = channel s \<and> cleanup s' = cleanup s \<and> globalKey s' = globalKey s
      \<and> pendingLoads s' = pendingLoads s
      \<and> ready s' = ready s \<and> awaitingReady s' = awaitingReady s
      \<and> measured s \<le> measured s'
      \<and> (posted s' = posted s
          \<or> (posted s' = posted s @ [lastHeight s'] \<and> 0 < lastHeight s'
              \<and> lastHeight s' \<noteq> lastHeight s \<and> channel s = Accepting
              \<and> (100000 < lastHeight s' \<longrightarrow> 3 \<le> anomalyCount s'))))"

section \<open>Properties of the reconciler\<close>

subsection \<open>Change-significance threshold\<close>

text \<open>
  C3. For every payload that coerces to a finite, strictly positive number \<open>v\<close>: when
  the candidate \<open>max(minHeight, ceil(v))\<close> is within one unit of the committed height,
  ingesting the payload returns the state as it was: same committed height, no frame
  requested, no pending value, no call of \<open>onHeightChange\<close>.
\<close>

theorem threshold_suppresses_ingest:
  assumes "(case p of Num n \<Rightarrow> n | Other x \<Rightarrow> number x) = Fin v"
    and "0 < v"
    and "\<bar>max (minHeight s) (ceil v) - lastHeightRef s\<bar> \<le> 1"
  shows "setHeightFromPayload number p s = s"
  using assms by (simp add: setHeightFromPayload_def HEIGHT_DIFF_THRESHOLD_def Let_def)

theorem threshold_suppresses_ingest_witness:
  "setHeightFromPayload (\<lambda>x::unit. NaN) (Num (Fin 64.5)) (useAutoHeight True True 64 (Some 0))
     = useAutoHeight True True 64 (Some 0)"
proof -
  have "\<bar>max (minHeight (useAutoHeight True True 64 (Some 0))) (ceil 64.5)
          - lastHeightRef (useAutoHeight True True 64 (Some 0))\<bar> \<le> 1"
    by (simp add: useAutoHeight_def minHeightEffect_def ceil_def)
  then show ?thesis
    using threshold_suppresses_ingest
            [where p = "Num (Fin 64.5)" and number = "\<lambda>x::unit. NaN" and v = "64.5"
               and s = "useAutoHeight True True 64 (Some 0)"]
    by simp
qed

subsection \<open>Burst coalescing\<close>

text \<open>
  C1. In a host with \<open>requestAnimationFrame\<close>, with no frame outstanding, and with 180
  and 220 both candidates in their own right (\<open>minHeight\<close> at most 180) and both more than
  one unit away from the committed height: ingesting 180 and then 220 requests exactly one
  frame, commits and notifies nothing before that frame runs, and the frame commits 220
  and calls \<open>onHeightChange\<close> once, with 220. The value 180 is only ever pending.
\<close>

theorem burst_coalesces_to_latest:
  assumes "hasRequestFrame s" and "single_flight s" and "frameRef s = None"
    and "onHeightChange s = Some k" and "mounted s"
    and "minHeight s \<le> 180"
    and "1 < \<bar>180 - lastHeightRef s\<bar>" and "1 < \<bar>220 - lastHeightRef s\<bar>"
  shows "let s1 = setHeightFromPayload number (Num (Fin 180)) s;
             s2 = setHeightFromPayload number (Num (Fin 220)) s1;
             s3 = runFrameCallback (Suc (rafCount s)) s2
         in rafCount s2 = Suc (rafCount s)
            \<and> rafQueue s2 = [(Suc (rafCount s), Some k)]
            \<and> pendingHeightRef s1 = Some 180 \<and> pendingHeightRef s2 = Some 220
            \<and> notified s1 = notified s \<and> notified s2 = notified s
            \<and> lastHeightRef s1 = lastHeightRef s \<and> lastHeightRef s2 = lastHeightRef s
            \<and> height s1 = height s \<and> height s2 = height s
            \<and> lastHeightRef s3 = 220 \<and> height s3 = 220
            \<and> notified s3 = notified s @ [(k, 220)]
            \<and> pendingHeightRef s3 = None \<and> frameRef s3 = None \<and> rafQueue s3 = []
            \<and> rafCount s3 = Suc (rafCount s)"
  using assms
  by (simp add: setHeightFromPayload_def scheduleCommit_def runFrameCallback_def
      flushPendingHeight_def commitHeight_def HEIGHT_DIFF_THRESHOLD_def ceil_def Let_def
      single_flight_def max_def)

theorem burst_coalesces_to_latest_witness:
  "let s = useAutoHeight True True 100 (Some 7);
       s1 = setHeightFromPayload (\<lambda>x::unit. NaN) (Num (Fin 180)) s;
       s2 = setHeightFromPayload (\<lambda>x::unit. NaN) (Num (Fin 220)) s1;
       s3 = runFrameCallback 1 s2
   in rafCount s2 = 1 \<and> rafQueue s2 = [(1, Some 7)] \<and> notified s2 = []
      \<and> lastHeightRef s3 = 220 \<and> height s3 = 220 \<and> notified s3 = [(7, 220)]"
proof -
  let ?s = "useAutoHeight True True 100 (Some 7)"
  have s: "?s = \<lparr>minHeight = 100, onHeightChange = Some 7,
        height = 100, lastHeightRef = 100,
        frameRef = None, pendingHeightRef = None, mounted = True,
        hasRequestFrame = True, hasCancelFrame = True,
        rafQueue = [], rafCount = 0, notified = []\<rparr>"
    by (simp add: useAutoHeight_def minHeightEffect_def)
  have h: "hasRequestFrame ?s" "single_flight ?s" "frameRef ?s = None"
    "onHeightChange ?s = Some 7" "mounted ?s" "minHeight ?s \<le> 180"
    "1 < \<bar>180 - lastHeightRef ?s\<bar>" "1 < \<bar>220 - lastHeightRef ?s\<bar>"
    by (simp_all add: s single_flight_def)
  show ?thesis
    using burst_coalesces_to_latest [OF h, where number = "\<lambda>x::unit. NaN"]
    by (simp add: Let_def s)
qed

subsection \<open>The committed height and the minimum\<close>

lemma covers_init: "pending_covers (useAutoHeight request cancel m cb)"
  by (simp add: pending_covers_def useAutoHeight_def minHeightEffect_def)

lemma floored_init: "floored (useAutoHeight request cancel m cb)"
  by (simp add: floored_def useAutoHeight_def minHeightEffect_def)

lemma ceil_ge: "m \<le> ceil m"
  by (simp add: ceil_def)

lemma covers_flush: "pending_covers s \<Longrightarrow> pending_covers (flushPendingHeight c s)"
  by (auto simp: pending_covers_def flushPendingHeight_def commitHeight_def Let_def
      split: option.splits)

lemma covers_schedule:
  "pending_covers s \<Longrightarrow> minHeight s \<le> h \<Longrightarrow> pending_covers (scheduleCommit c h s)"
  by (auto simp: pending_covers_def scheduleCommit_def flushPendingHeight_def commitHeight_def
      Let_def split: option.splits)

lemma covers_step:
  "pending_covers s \<Longrightarrow> \<not> raises_over_pending e s \<Longrightarrow> pending_covers (step number e s)"
proof (cases e)
  case (Ingest p)
  assume "pending_covers s"
  then show ?thesis
    by (auto simp: Ingest setHeightFromPayload_def Let_def intro!: covers_schedule
        split: jsnum.splits payload.splits)
next
  case (Rerender m c)
  assume a: "pending_covers s" and b: "\<not> raises_over_pending e s"
  let ?s1 = "s\<lparr>minHeight := m, onHeightChange := c\<rparr>"
  show ?thesis
  proof (cases "mounted s \<and> lastHeightRef s < m")
    case True
    have "pending_covers (scheduleCommit c (ceil m) ?s1)"
      using a True
      by (auto simp: pending_covers_def scheduleCommit_def flushPendingHeight_def
          commitHeight_def Let_def ceil_ge split: option.splits)
    with True a show ?thesis
      by (auto simp: Rerender rerender_def minHeightEffect_def Let_def pending_covers_def
          split: option.splits)
  next
    case False
    with a b show ?thesis
      by (auto simp: Rerender rerender_def minHeightEffect_def Let_def pending_covers_def
          split: option.splits)
  qed
next
  case (Frame i)
  assume a: "pending_covers s"
  have "pending_covers (s\<lparr>rafQueue := q\<rparr>)" for q
    using a by (simp add: pending_covers_def split: option.splits)
  then show ?thesis
    by (simp add: Frame a runFrameCallback_def covers_flush split: option.splits)
next
  case Unmount
  assume "pending_covers s"
  then show ?thesis
    by (auto simp: Unmount pending_covers_def unmount_def Let_def split: option.splits)
qed

lemma floored_step:
  "pending_covers s \<Longrightarrow> floored s \<Longrightarrow> \<not> raises_above e s \<Longrightarrow> \<not> raises_over_pending e s
     \<Longrightarrow> floored (step number e s)"
proof (cases e)
  case (Ingest p)
  assume "pending_covers s" "floored s"
  then show ?thesis
    by (auto simp: Ingest setHeightFromPayload_def Let_def scheduleCommit_def
        flushPendingHeight_def commitHeight_def floored_def pending_covers_def
        split: jsnum.splits payload.splits option.splits)
next
  case (Rerender m c)
  assume "pending_covers s" "floored s" "\<not> raises_above e s" "\<not> raises_over_pending e s"
  then show ?thesis
    by (auto simp: Rerender rerender_def minHeightEffect_def Let_def floored_def
        pending_covers_def split: option.splits)
next
  case (Frame i)
  assume "pending_covers s" "floored s"
  then show ?thesis
    by (auto simp: Frame runFrameCallback_def flushPendingHeight_def commitHeight_def Let_def
        floored_def pending_covers_def split: option.splits)
next
  case Unmount
  assume "floored s"
  then show ?thesis
    by (simp add: Unmount floored_def unmount_def Let_def split: option.splits)
qed

lemma run_append: "run number (as @ bs) s = run number bs (run number as s)"
  by (induction as arbitrary: s) simp_all

lemma no_raise_over_pending_append:
  "no_raise_over_pending number (as @ bs) s
     \<longleftrightarrow> no_raise_over_pending number as s
         \<and> no_raise_over_pending number bs (run number as s)"
  by (induction as arbitrary: s) auto

lemma covers_run:
  "pending_covers s \<Longrightarrow> no_raise_over_pending number es s \<Longrightarrow> pending_covers (run number es s)"
proof (induction es arbitrary: s)
  case Nil
  then show ?case by simp
next
  case (Cons e es)
  have "pending_covers (step number e s)"
    using Cons.prems by (simp add: covers_step)
  with Cons.IH Cons.prems show ?case by simp
qed

lemma covers_trace:
  "pending_covers s \<Longrightarrow> no_raise_over_pending number es s
     \<Longrightarrow> s' \<in> set (trace number es s) \<Longrightarrow> pending_covers s'"
proof (induction es arbitrary: s)
  case Nil
  then show ?case by simp
next
  case (Cons e es)
  have next_ok: "pending_covers (step number e s)"
    using Cons.prems by (simp add: covers_step)
  show ?case
  proof (cases "s' = s")
    case True
    with Cons.prems show ?thesis by simp
  next
    case False
    with Cons.prems have "s' \<in> set (trace number es (step number e s))" by simp
    with Cons.IH [OF next_ok] Cons.prems show ?thesis by simp
  qed
qed

lemma floored_trace:
  "pending_covers s \<Longrightarrow> floored s \<Longrightarrow> no_raise_over_pending number es s
     \<Longrightarrow> no_raise_above number es s \<Longrightarrow> s' \<in> set (trace number es s) \<Longrightarrow> floored s'"
proof (induction es arbitrary: s)
  case Nil
  then show ?case by simp
next
  case (Cons e es)
  have next_covers: "pending_covers (step number e s)"
    using Cons.prems by (simp add: covers_step)
  have next_floored: "floored (step number e s)"
    using Cons.prems by (simp add: floored_step)
  show ?case
  proof (cases "s' = s")
    case True
    with Cons.prems show ?thesis by simp
  next
    case False
    with Cons.prems have "s' \<in> set (trace number es (step number e s))" by simp
    with Cons.IH [OF next_covers next_floored] Cons.prems show ?thesis by simp
  qed
qed

lemma floored_next:
  assumes "pending_covers s" and "no_raise_over_pending number es s" and "k < length es"
    and "floored (run number (take k es) s)"
    and "\<not> raises_above (es ! k) (run number (take k es) s)"
  shows "floored (run number (take (Suc k) es) s)"
proof -
  let ?t = "run number (take k es) s"
  have es: "es = take k es @ es ! k # drop (Suc k) es"
    using assms(3) by (simp add: id_take_nth_drop [symmetric])
  have "no_raise_over_pending number (take k es @ es ! k # drop (Suc k) es) s"
    using assms(2) es by simp
  then have pre: "no_raise_over_pending number (take k es) s"
    and here: "\<not> raises_over_pending (es ! k) ?t"
    by (simp_all add: no_raise_over_pending_append)
  have c: "pending_covers ?t"
    using assms(1) pre by (rule covers_run)
  have "run number (take (Suc k) es) s = step number (es ! k) ?t"
    using assms(3) by (simp add: take_Suc_conv_app_nth run_append)
  then show ?thesis
    using floored_step [OF c assms(4) assms(5) here] by simp
qed

lemma run_in_trace: "run number es s \<in> set (trace number es s)"
  by (induction es arbitrary: s) simp_all

text \<open>
  C2, as the code has it. The committed height starts at \<open>max(m, 1)\<close>, at least \<open>m\<close>.
  Take any run of ingestions, frames, renders and an unmount in which no render raises
  \<open>minHeight\<close> above a value that is pending while staying within the committed height.
  Then at every state of the run a pending value is at least \<open>minHeight\<close>, and the
  committed height is at least \<open>minHeight\<close> whenever nothing is pending and the component
  is mounted, and always in a host without a frame function; every event other than a
  render that raises \<open>minHeight\<close> above the committed height keeps the floor; and in a run
  without such a render the floor holds at every state.
\<close>

theorem committed_height_floor:
  assumes "no_raise_over_pending number es (useAutoHeight request cancel m cb)"
  shows "height (useAutoHeight request cancel m cb) = max m 1
         \<and> floored (useAutoHeight request cancel m cb)
         \<and> (\<forall>s \<in> set (trace number es (useAutoHeight request cancel m cb)).
              pending_covers s
              \<and> (pendingHeightRef s = None \<longrightarrow> minHeight s \<le> lastHeightRef s)
              \<and> (pendingHeightRef s = None \<and> mounted s \<longrightarrow> floored s)
              \<and> (\<not> hasRequestFrame s \<and> mounted s \<longrightarrow> floored s))
         \<and> (\<forall>k < length es.
              floored (run number (take k es) (useAutoHeight request cancel m cb))
              \<and> \<not> raises_above (es ! k)
                    (run number (take k es) (useAutoHeight request cancel m cb))
              \<longrightarrow> floored (run number (take (Suc k) es) (useAutoHeight request cancel m cb)))
         \<and> (no_raise_above number es (useAutoHeight request cancel m cb) \<longrightarrow>
              (\<forall>s \<in> set (trace number es (useAutoHeight request cancel m cb)). floored s))"
proof -
  let ?init = "useAutoHeight request cancel m cb"
  have 1: "height ?init = max m 1"
    by (simp add: useAutoHeight_def minHeightEffect_def)
  have 2: "pending_covers s
              \<and> (pendingHeightRef s = None \<longrightarrow> minHeight s \<le> lastHeightRef s)
              \<and> (pendingHeightRef s = None \<and> mounted s \<longrightarrow> floored s)
              \<and> (\<not> hasRequestFrame s \<and> mounted s \<longrightarrow> floored s)"
    if "s \<in> set (trace number es ?init)" for s
  proof -
    have "pending_covers s"
      using covers_init assms that by (rule covers_trace)
    then show ?thesis
      by (auto simp: pending_covers_def floored_def)
  qed
  have 3: "floored (run number (take (Suc k) es) ?init)"
    if "k < length es" "floored (run number (take k es) ?init)"
      "\<not> raises_above (es ! k) (run number (take k es) ?init)" for k
    using covers_init assms that by (rule floored_next)
  have 4: "floored s"
    if "no_raise_above number es ?init" "s \<in> set (trace number es ?init)" for s
    using covers_init floored_init assms that by (rule floored_trace)
  from 1 floored_init 2 3 4 show ?thesis by blast
qed

theorem committed_height_floor_witness:
  "floored (run (\<lambda>x::unit. NaN)
      [Ingest (Num (Fin 300)), Frame 1, Rerender 200 (Some 0), Ingest (Num (Fin 250.5))]
      (useAutoHeight True True 0 (Some 0)))
   \<and> floored (run (\<lambda>x::unit. NaN) [Rerender 200 (Some 0), Frame 1]
      (useAutoHeight True True 80 (Some 0)))
   \<and> floored (run (\<lambda>x::unit. NaN) [Rerender 200 (Some 0)]
      (useAutoHeight False False 80 (Some 0)))
   \<and> height (useAutoHeight True True 80 (Some 0)) = 80"
proof -
  let ?n = "\<lambda>x::unit. NaN"
  let ?a = "[Ingest (Num (Fin 300)), Frame 1, Rerender 200 (Some 0), Ingest (Num (Fin 250.5))]
            :: unit event list"
  let ?b = "[Rerender 200 (Some 0), Frame 1] :: unit event list"
  let ?c = "[Rerender 200 (Some 0)] :: unit event list"
  have evals: "useAutoHeight True True 0 (Some 0) =
      \<lparr>minHeight = 0, onHeightChange = Some 0, height = 1, lastHeightRef = 1,
       frameRef = None, pendingHeightRef = None, mounted = True,
       hasRequestFrame = True, hasCancelFrame = True,
       rafQueue = [], rafCount = 0, notified = []\<rparr>"
    "useAutoHeight True True 80 (Some 0) =
      \<lparr>minHeight = 80, onHeightChange = Some 0, height = 80, lastHeightRef = 80,
       frameRef = None, pendingHeightRef = None, mounted = True,
       hasRequestFrame = True, hasCancelFrame = True,
       rafQueue = [], rafCount = 0, notified = []\<rparr>"
    "useAutoHeight False False 80 (Some 0) =
      \<lparr>minHeight = 80, onHeightChange = Some 0, height = 80, lastHeightRef = 80,
       frameRef = None, pendingHeightRef = None, mounted = True,
       hasRequestFrame = False, hasCancelFrame = False,
       rafQueue = [], rafCount = 0, notified = []\<rparr>"
    by (simp_all add: useAutoHeight_def minHeightEffect_def)
  note defs = setHeightFromPayload_def scheduleCommit_def runFrameCallback_def
    flushPendingHeight_def commitHeight_def rerender_def minHeightEffect_def
    HEIGHT_DIFF_THRESHOLD_def ceil_def Let_def
  have a1: "no_raise_over_pending ?n ?a (useAutoHeight True True 0 (Some 0))"
    by (simp add: evals defs)
  have a2: "no_raise_above ?n ?a (useAutoHeight True True 0 (Some 0))"
    by (simp add: evals defs)
  have b1: "no_raise_over_pending ?n ?b (useAutoHeight True True 80 (Some 0))"
    by (simp add: evals defs)
  have b2: "pendingHeightRef (run ?n ?b (useAutoHeight True True 80 (Some 0))) = None
      \<and> mounted (run ?n ?b (useAutoHeight True True 80 (Some 0)))"
    by (simp add: evals defs)
  have c1: "no_raise_over_pending ?n ?c (useAutoHeight False False 80 (Some 0))"
    by (simp add: evals defs)
  have c2: "\<not> hasRequestFrame (run ?n ?c (useAutoHeight False False 80 (Some 0)))
      \<and> mounted (run ?n ?c (useAutoHeight False False 80 (Some 0)))"
    by (simp add: evals defs)
  have A: "floored (run ?n ?a (useAutoHeight True True 0 (Some 0)))"
    using committed_height_floor [OF a1] a2 run_in_trace [of ?n ?a] by blast
  have B: "floored (run ?n ?b (useAutoHeight True True 80 (Some 0)))"
    using committed_height_floor [OF b1] b2 run_in_trace [of ?n ?b] by blast
  have C: "floored (run ?n ?c (useAutoHeight False False 80 (Some 0)))"
    using committed_height_floor [OF c1] c2 run_in_trace [of ?n ?c] by blast
  have D: "height (useAutoHeight True True 80 (Some 0)) = 80"
    using committed_height_floor [OF b1] by simp
  from A B C D show ?thesis by blast
qed

text \<open>
  C2 as stated fails: after a render that raises \<open>minHeight\<close> from 80 to 200 the new minimum
  is only pending until the requested frame runs, and the committed height is still 80.
\<close>

theorem committed_height_below_raised_minHeight:
  "height (run (\<lambda>x::unit. NaN) [Rerender 200 (Some 0)] (useAutoHeight True True 80 (Some 0)))
     < minHeight (run (\<lambda>x::unit. NaN) [Rerender 200 (Some 0)]
         (useAutoHeight True True 80 (Some 0)))"
  by (simp add: useAutoHeight_def minHeightEffect_def rerender_def scheduleCommit_def Let_def)

text \<open>
  A pending value computed under an older, lower minimum is committed as it is: with the
  committed height at 300, a pending 100 and a render that raises \<open>minHeight\<close> to 200 (not
  above 300, so the effect schedules nothing), the frame commits 100.
\<close>

lemma stale_pending_commits_below_minHeight:
  "run (\<lambda>x::unit. NaN)
     [Ingest (Num (Fin 300)), Frame 1, Ingest (Num (Fin 100)), Rerender 200 (Some 0), Frame 2]
     (useAutoHeight True True 0 (Some 0))
   = \<lparr>minHeight = 200, onHeightChange = Some 0, height = 100, lastHeightRef = 100,
      frameRef = None, pendingHeightRef = None, mounted = True,
      hasRequestFrame = True, hasCancelFrame = True,
      rafQueue = [], rafCount = 2, notified = [(0, 300), (0, 100)]\<rparr>"
  by (simp add: useAutoHeight_def minHeightEffect_def rerender_def scheduleCommit_def Let_def
      setHeightFromPayload_def runFrameCallback_def flushPendingHeight_def commitHeight_def
      ceil_def HEIGHT_DIFF_THRESHOLD_def)

subsection \<open>Raising the minimum\<close>

lemma single_flight_init: "single_flight (useAutoHeight request cancel m cb)"
  by (simp add: single_flight_def useAutoHeight_def minHeightEffect_def)

lemma single_flight_flush:
  "rafQueue s = [] \<Longrightarrow> single_flight (flushPendingHeight cb s)"
  by (simp add: single_flight_def flushPendingHeight_def commitHeight_def Let_def
      split: option.splits)

lemma single_flight_schedule:
  "single_flight s \<Longrightarrow> single_flight (scheduleCommit cb h s)"
  by (auto simp: single_flight_def scheduleCommit_def flushPendingHeight_def commitHeight_def
      Let_def split: option.splits)

lemma single_flight_ingest:
  "single_flight s \<Longrightarrow> single_flight (setHeightFromPayload number p s)"
  by (auto simp: setHeightFromPayload_def Let_def intro!: single_flight_schedule
      split: jsnum.splits payload.splits)

lemma single_flight_rerender:
  "single_flight s \<Longrightarrow> single_flight (rerender m cb s)"
proof -
  assume a: "single_flight s"
  have "single_flight (s\<lparr>minHeight := m, onHeightChange := cb\<rparr>)"
    using a by (simp add: single_flight_def split: option.splits)
  then show ?thesis
    using a by (simp add: rerender_def minHeightEffect_def Let_def single_flight_schedule)
qed

lemma single_flight_frame:
  "single_flight s \<Longrightarrow> single_flight (runFrameCallback i s)"
proof (cases "map_of (rafQueue s) i")
  case None
  assume "single_flight s"
  with None show ?thesis by (simp add: runFrameCallback_def)
next
  case (Some c)
  assume a: "single_flight s"
  from Some have "i \<in> fst ` set (rafQueue s)"
    by (metis domI dom_map_of_conv_image_fst)
  with a have "filter (\<lambda>e. fst e \<noteq> i) (rafQueue s) = []"
    by (cases "rafQueue s") (auto simp: single_flight_def split: option.splits)
  with Some show ?thesis
    by (simp add: runFrameCallback_def single_flight_flush)
qed

lemma mounted_flush: "mounted (flushPendingHeight cb s) = mounted s"
  by (simp add: flushPendingHeight_def commitHeight_def Let_def split: option.splits)

lemma mounted_step: "mounted (step number e s) \<Longrightarrow> mounted s"
  by (cases e)
     (auto simp: setHeightFromPayload_def scheduleCommit_def rerender_def minHeightEffect_def
        runFrameCallback_def unmount_def mounted_flush Let_def
        split: jsnum.splits payload.splits option.splits if_splits)

lemma single_flight_step:
  "single_flight s \<Longrightarrow> mounted (step number e s) \<Longrightarrow> single_flight (step number e s)"
proof (cases e)
  case Unmount
  assume "mounted (step number e s)"
  with Unmount show ?thesis by (simp add: unmount_def Let_def split: option.splits if_splits)
qed (simp_all add: single_flight_ingest single_flight_rerender single_flight_frame)

lemma mounted_run: "mounted (run number es s) \<Longrightarrow> mounted s"
  by (induction es arbitrary: s) (auto dest: mounted_step)

text \<open>While the component is mounted, at most one frame request is outstanding.\<close>

lemma single_flight_run:
  "single_flight s \<Longrightarrow> mounted (run number es s) \<Longrightarrow> single_flight (run number es s)"
proof (induction es arbitrary: s)
  case Nil
  then show ?case by simp
next
  case (Cons e es)
  from Cons.prems(2) have "mounted (step number e s)"
    using mounted_run [of number es "step number e s"] by simp
  with Cons show ?case by (simp add: single_flight_step)
qed

text \<open>
  C5. When a render of a mounted reconciler raises \<open>minHeight\<close> to \<open>m\<close>, strictly above
  the committed height, the effect puts \<open>ceil(m)\<close> into the same pending slot that payloads
  use and commits or notifies nothing by itself. If a frame function exists or a frame is
  already outstanding, then afterwards exactly one frame request is outstanding (a new one
  only if none was), it is the one in \<open>frameRef\<close>, and when it runs it commits \<open>ceil(m)\<close>
  and notifies once. In a host without a frame function the commit of \<open>ceil(m)\<close> happens
  inside the effect.
\<close>

theorem raising_minHeight_schedules_one_commit:
  assumes "mounted s" and "single_flight s"
    and "minHeight s < m" and "lastHeightRef s < m"
  shows "let s' = rerender m cb s in
           if hasRequestFrame s \<or> frameRef s \<noteq> None then
             pendingHeightRef s' = Some (ceil m)
             \<and> notified s' = notified s \<and> lastHeightRef s' = lastHeightRef s
             \<and> rafCount s' = (if frameRef s = None then Suc (rafCount s) else rafCount s)
             \<and> single_flight s'
             \<and> (case rafQueue s' of
                  [(i, c)] \<Rightarrow>
                    frameRef s' = Some i
                    \<and> (let s'' = runFrameCallback i s'
                       in lastHeightRef s'' = ceil m \<and> height s'' = ceil m
                          \<and> pendingHeightRef s'' = None \<and> rafQueue s'' = []
                          \<and> notified s'' =
                              notified s @ (case c of None \<Rightarrow> [] | Some k \<Rightarrow> [(k, ceil m)]))
                | _ \<Rightarrow> False)
           else
             lastHeightRef s' = ceil m \<and> height s' = ceil m
             \<and> pendingHeightRef s' = None \<and> frameRef s' = None
             \<and> rafQueue s' = rafQueue s \<and> rafCount s' = rafCount s
             \<and> notified s' = notified s @ (case cb of None \<Rightarrow> [] | Some k \<Rightarrow> [(k, ceil m)])"
proof (cases "frameRef s")
  case None
  with assms show ?thesis
    by (auto simp: rerender_def minHeightEffect_def scheduleCommit_def runFrameCallback_def
      Let_def flushPendingHeight_def commitHeight_def single_flight_def split: option.splits)
next
  case (Some i)
  with assms obtain c where q: "rafQueue s = [(i, c)]"
    by (cases "rafQueue s") (auto simp: single_flight_def)
  with Some assms show ?thesis
    by (auto simp: rerender_def minHeightEffect_def scheduleCommit_def runFrameCallback_def
      Let_def flushPendingHeight_def commitHeight_def single_flight_def split: option.splits)
qed

theorem raising_minHeight_schedules_one_commit_witness:
  "let s = useAutoHeight True True 80 (Some 0);
       s' = rerender 200 (Some 0) s;
       s'' = runFrameCallback 1 s'
   in pendingHeightRef s' = Some 200 \<and> notified s' = [] \<and> rafCount s' = 1
      \<and> rafQueue s' = [(1, Some 0)] \<and> frameRef s' = Some 1
      \<and> lastHeightRef s'' = 200 \<and> height s'' = 200 \<and> notified s'' = [(0, 200)]"
proof -
  let ?s = "useAutoHeight True True 80 (Some 0)"
  have s: "?s = \<lparr>minHeight = 80, onHeightChange = Some 0,
        height = 80, lastHeightRef = 80,
        frameRef = None, pendingHeightRef = None, mounted = True,
        hasRequestFrame = True, hasCancelFrame = True,
        rafQueue = [], rafCount = 0, notified = []\<rparr>"
    by (simp add: useAutoHeight_def minHeightEffect_def)
  have h: "mounted ?s" "single_flight ?s" "minHeight ?s < 200" "lastHeightRef ?s < 200"
    by (simp_all add: s single_flight_def)
  have q: "rafQueue (rerender 200 (Some 0) ?s) = [(1, Some 0)]"
    by (simp add: s rerender_def minHeightEffect_def scheduleCommit_def Let_def)
  have c: "ceil 200 = 200" by (simp add: ceil_def)
  show ?thesis
    using raising_minHeight_schedules_one_commit [OF h, of "Some 0"] q
    by (simp add: Let_def s c)
qed

subsection \<open>Teardown\<close>

lemma frame_empty_queue: "rafQueue s = [] \<Longrightarrow> runFrameCallback i s = s"
  by (simp add: runFrameCallback_def)

lemma run_frames_empty_queue:
  "rafQueue s = [] \<Longrightarrow> run number (map Frame is) s = s"
  by (induction "is") (simp_all add: frame_empty_queue)

text \<open>
  C6, as the code has it. Unmounting a reconciler in a host with
  \<open>cancelAnimationFrame\<close> cancels the outstanding frame request: no frame callback is left
  for the host to run, whatever frames fire afterwards change nothing, and unmounting
  itself commits and notifies nothing. And a flush that finds no pending value only resets
  \<open>frameRef\<close>: no commit, no call of \<open>onHeightChange\<close>.
\<close>

theorem teardown_cancels_frame:
  assumes "single_flight s" and "hasCancelFrame s" and "pendingHeightRef t = None"
  shows "rafQueue (unmount s) = []
         \<and> run number (map Frame is) (unmount s) = unmount s
         \<and> notified (unmount s) = notified s
         \<and> lastHeightRef (unmount s) = lastHeightRef s \<and> height (unmount s) = height s
         \<and> flushPendingHeight cb t = t\<lparr>frameRef := None\<rparr>"
proof -
  have q: "rafQueue (unmount s) = []"
    using assms
    by (cases "rafQueue s")
       (auto simp: unmount_def single_flight_def Let_def split: option.splits)
  show ?thesis
    using q run_frames_empty_queue [OF q, of number "is"] assms(3)
    by (auto simp: unmount_def Let_def flushPendingHeight_def split: option.splits)
qed

theorem teardown_cancels_frame_witness:
  "let s = setHeightFromPayload (\<lambda>x::unit. NaN) (Num (Fin 300))
             (useAutoHeight True True 90 (Some 0))
   in rafQueue s = [(1, Some 0)] \<and> rafQueue (unmount s) = []
      \<and> run (\<lambda>x::unit. NaN) (map Frame [1, 1, 2]) (unmount s) = unmount s
      \<and> notified (unmount s) = []
      \<and> flushPendingHeight (Some 0) (useAutoHeight True True 90 (Some 0))
          = (useAutoHeight True True 90 (Some 0))\<lparr>frameRef := None\<rparr>"
proof -
  let ?init = "useAutoHeight True True 90 (Some 0)"
  let ?s = "setHeightFromPayload (\<lambda>x::unit. NaN) (Num (Fin 300)) ?init"
  have s: "?s = \<lparr>minHeight = 90, onHeightChange = Some 0,
        height = 90, lastHeightRef = 90,
        frameRef = Some 1, pendingHeightRef = Some 300, mounted = True,
        hasRequestFrame = True, hasCancelFrame = True,
        rafQueue = [(1, Some 0)], rafCount = 1, notified = []\<rparr>"
    by (simp add: useAutoHeight_def minHeightEffect_def setHeightFromPayload_def
        scheduleCommit_def ceil_def HEIGHT_DIFF_THRESHOLD_def Let_def)
  have h1: "single_flight ?s" by (simp add: s single_flight_def)
  have h2: "hasCancelFrame ?s" by (simp add: s)
  have h3: "pendingHeightRef ?init = None" by (simp add: useAutoHeight_def minHeightEffect_def)
  show ?thesis
    using teardown_cancels_frame [OF h1 h2 h3, of "\<lambda>x::unit. NaN" "[1, 1, 2]" "Some 0"]
    by (simp add: Let_def s)
qed

text \<open>
  C6 as stated fails: unmounting leaves \<open>pendingHeightRef\<close> as it is, so a frame callback
  that runs after the unmount commits the pending 300 and calls \<open>onHeightChange(300)\<close>,
  both when the callback is run although its request was cancelled, and when the host has
  \<open>requestAnimationFrame\<close> but no \<open>cancelAnimationFrame\<close> and the frame simply fires.
\<close>

theorem teardown_flush_after_unmount_commits:
  "notified (flushPendingHeight (Some 0)
      (unmount (setHeightFromPayload (\<lambda>x::unit. NaN) (Num (Fin 300))
         (useAutoHeight True True 90 (Some 0))))) = [(0, 300)]
   \<and> lastHeightRef (flushPendingHeight (Some 0)
      (unmount (setHeightFromPayload (\<lambda>x::unit. NaN) (Num (Fin 300))
         (useAutoHeight True True 90 (Some 0))))) = 300
   \<and> notified (run (\<lambda>x::unit. NaN) [Ingest (Num (Fin 300)), Unmount, Frame 1]
         (useAutoHeight True False 90 (Some 0))) = [(0, 300)]"
  by (simp add: useAutoHeight_def minHeightEffect_def unmount_def scheduleCommit_def Let_def
      setHeightFromPayload_def runFrameCallback_def flushPendingHeight_def commitHeight_def
      ceil_def HEIGHT_DIFF_THRESHOLD_def)

section \<open>Properties of the script composer\<close>

lemma join_snoc: "ps \<noteq> [] \<Longrightarrow> join sep (ps @ [x]) = join sep ps @ sep @ x"
  by (induction sep ps rule: join.induct) auto

lemma filterBoolean_empty:
  "filterBoolean cs = [] \<longleftrightarrow> (\<forall>c \<in> set cs. c = None \<or> c = Some [])"
  by (induction cs rule: filterBoolean.induct) auto

lemma filterBoolean_filter:
  "filterBoolean cs = map the (filter (\<lambda>c. c \<noteq> None \<and> c \<noteq> Some []) cs)"
  by (induction cs rule: filterBoolean.induct) auto

text \<open>
  C7. Composing a list of optional chunks gives no script when every chunk is absent or
  empty; otherwise it gives the chunks that remain (the defined, non-empty ones, in
  order) and the statement \<open>true;\<close>, joined with newline characters. Two chunks \<open>a();\<close>
  and \<open>b();\<close> give the three lines \<open>a();\<close>, \<open>b();\<close>, \<open>true;\<close>.
\<close>

theorem composeInjectedScript_correct:
  "composeInjectedScript chunks =
     (if \<forall>c \<in> set chunks. c = None \<or> c = Some [] then None
      else Some (join newline (filterBoolean chunks @ [''true;''])))
   \<and> filterBoolean chunks = map the (filter (\<lambda>c. c \<noteq> None \<and> c \<noteq> Some []) chunks)
   \<and> composeInjectedScript [Some ''a();'', Some ''b();'']
       = Some (''a();'' @ [CHR 0x0A] @ ''b();'' @ [CHR 0x0A] @ ''true;'')"
proof -
  have "composeInjectedScript [Some ''a();'', Some ''b();'']
       = Some (''a();'' @ [CHR 0x0A] @ ''b();'' @ [CHR 0x0A] @ ''true;'')"
    by (simp add: composeInjectedScript_def newline_def)
  then show ?thesis
    using filterBoolean_empty [of chunks] filterBoolean_filter [of chunks]
    by (simp add: composeInjectedScript_def Let_def join_snoc)
qed

theorem composeInjectedScript_correct_witness:
  "composeInjectedScript [None, Some [], None] = None
   \<and> composeInjectedScript [Some ''const a = 1;'', None, Some ''const b = 2;'']
       = Some (''const a = 1;'' @ [CHR 0x0A] @ ''const b = 2;'' @ [CHR 0x0A] @ ''true;'')"
  using composeInjectedScript_correct [of "[None, Some [], None]"]
    composeInjectedScript_correct [of "[Some ''const a = 1;'', None, Some ''const b = 2;'']"]
  by (simp add: newline_def)


section \<open>Properties of the measurement agent\<close>

subsection \<open>What measuring and posting may change\<close>

lemma ceil_pos: "0 < v \<Longrightarrow> 0 < ceil v"
  by (simp add: ceil_def)

lemma measure_frame_scheduleFallback:
  "measure_frame s s' \<Longrightarrow> measure_frame s (scheduleFallback s')"
  by (auto simp: measure_frame_def scheduleFallback_def setTimeout_def Let_def)

lemma measure_frame_resetFallback:
  "measure_frame s s' \<Longrightarrow> measure_frame s (resetFallback s')"
  by (auto simp: measure_frame_def resetFallback_def scheduleFallback_def setTimeout_def clearTimeout_def
      Let_def split: option.splits)

lemma measure_frame_start:
  "posted t = posted s \<Longrightarrow> lastHeight t = lastHeight s \<Longrightarrow> channel t = channel s
   \<Longrightarrow> cleanup t = cleanup s \<Longrightarrow> globalKey t = globalKey s
   \<Longrightarrow> pendingLoads t = pendingLoads s
   \<Longrightarrow> ready t = ready s \<Longrightarrow> awaitingReady t = awaitingReady s
   \<Longrightarrow> measured s \<le> measured t \<Longrightarrow> measure_frame t s' \<Longrightarrow> measure_frame s s'"
  by (auto simp: measure_frame_def)

lemma measure_frame_all:
  "measure_frame s (postHeight h s)"
  "measure_frame s (scheduleMeasure force s)"
  "measure_frame s (runMeasure s)"
proof (induction h s and force s and s rule: postHeight_scheduleMeasure_runMeasure.induct)
  case (1 h s)
  show ?case
  proof (cases h)
    case (Fin v)
    show ?thesis
    proof (cases "0 < v \<and> 100000 < ceil v \<and> Suc (anomalyCount s) < 3")
      case True
      let ?s2 = "s\<lparr>lastCssHeight := Fin v, anomalyCount := Suc (anomalyCount s)\<rparr>"
      have eq: "postHeight h s = scheduleMeasure True ?s2"
        using True by (simp add: Fin postHeight.simps [of "Fin v" s] Let_def)
      have "measure_frame ?s2 (scheduleMeasure True ?s2)"
        using "1.IH" [of v "s\<lparr>lastCssHeight := Fin v\<rparr>" "ceil v" ?s2] True Fin
        by simp
      then show ?thesis
        unfolding eq by (rule measure_frame_start [rotated -1]) simp_all
    next
      case False
      then show ?thesis
        by (auto simp: Fin postHeight.simps [of "Fin v" s] Let_def measure_frame_def ceil_pos
            split: channel.splits)
    qed
  qed (simp_all add: postHeight.simps [of _ s] measure_frame_def)
next
  case (2 force s)
  show ?case
  proof (cases force)
    case True
    let ?s1 = "case frame s of Some i \<Rightarrow> (cancelFrame i s)\<lparr>frame := None\<rparr> | None \<Rightarrow> s"
    let ?s2 = "case timer ?s1 of Some i \<Rightarrow> (clearTimeout i ?s1)\<lparr>timer := None\<rparr> | None \<Rightarrow> ?s1"
    have eq: "scheduleMeasure force s = runMeasure ?s2"
      using True by (simp add: scheduleMeasure.simps [of True s] Let_def)
    have "measure_frame ?s2 (runMeasure ?s2)"
      using "2.IH" [of ?s1 ?s2] True by simp
    then show ?thesis
      unfolding eq
      by (rule measure_frame_start [rotated -1])
         (simp_all add: cancelFrame_def clearTimeout_def split: option.splits)
  next
    case False
    then show ?thesis
      by (auto simp: scheduleMeasure.simps [of False s] measure_frame_def requestFrame_def setTimeout_def
          Let_def split: prod.splits)
  qed
next
  case (3 s)
  let ?s1 = "s\<lparr>frame := None\<rparr>"
  let ?h = "fst (measureHeight ?s1)"
  let ?s2 = "snd (measureHeight ?s1)"
  let ?s3 = "if ?h \<noteq> 0 then postHeight (Fin ?h) ?s2 else ?s2"
  have eq: "runMeasure s = resetFallback ?s3"
    by (simp add: runMeasure.simps [of s] Let_def split: prod.splits)
  have "measure_frame ?s2 ?s3"
  proof (cases "?h \<noteq> 0")
    case True
    then show ?thesis
      using "3.IH" [of ?s1 "measureHeight ?s1" ?h ?s2] by simp
  next
    case False
    then show ?thesis by (simp add: measure_frame_def)
  qed
  then have "measure_frame s ?s3"
    by (rule measure_frame_start [rotated -1]) (simp_all add: measureHeight_def)
  then show ?case
    unfolding eq by (rule measure_frame_resetFallback)
qed


lemma measured_resetFallback: "measured (resetFallback s) = measured s"
  by (simp add: resetFallback_def scheduleFallback_def setTimeout_def clearTimeout_def
      Let_def split: option.splits)

lemma runMeasure_measures: "measured s < measured (runMeasure s)"
proof -
  let ?s1 = "s\<lparr>frame := None\<rparr>"
  let ?h = "fst (measureHeight ?s1)"
  let ?s2 = "snd (measureHeight ?s1)"
  let ?s3 = "if ?h \<noteq> 0 then postHeight (Fin ?h) ?s2 else ?s2"
  have eq: "runMeasure s = resetFallback ?s3"
    by (simp add: runMeasure.simps [of s] Let_def split: prod.splits)
  have "measured ?s2 \<le> measured ?s3"
    using measure_frame_all(1) [of ?s2 "Fin ?h"] by (simp add: measure_frame_def)
  moreover have "measured ?s2 = Suc (measured s)"
    by (simp add: measureHeight_def)
  ultimately show ?thesis
    by (simp add: eq measured_resetFallback)
qed

lemma forced_measure_measures: "measured s < measured (scheduleMeasure True s)"
proof -
  let ?s1 = "case frame s of Some i \<Rightarrow> (cancelFrame i s)\<lparr>frame := None\<rparr> | None \<Rightarrow> s"
  let ?s2 = "case timer ?s1 of Some i \<Rightarrow> (clearTimeout i ?s1)\<lparr>timer := None\<rparr> | None \<Rightarrow> ?s1"
  have eq: "scheduleMeasure True s = runMeasure ?s2"
    by (simp add: scheduleMeasure.simps [of True s] Let_def)
  have "measured ?s2 = measured s"
    by (simp add: cancelFrame_def clearTimeout_def split: option.splits)
  then show ?thesis
    using runMeasure_measures [of ?s2] by (simp add: eq)
qed

lemma postHeight_rejects:
  "(case h of Fin v \<Rightarrow> v \<le> 0 | _ \<Rightarrow> True)
     \<Longrightarrow> posted (postHeight h s) = posted s \<and> lastHeight (postHeight h s) = lastHeight s
         \<and> measured (postHeight h s) = measured s"
  by (cases h) (simp_all add: postHeight.simps [of _ s])

lemma postHeight_plain:
  "0 < v \<Longrightarrow> ceil v \<le> 100000 \<Longrightarrow>
     postHeight (Fin v) s =
       (let s2 = s\<lparr>lastCssHeight := Fin v, anomalyCount := 0\<rparr>
        in if lastHeight s = ceil v then s2
           else if channel s = Accepting
           then s2\<lparr>lastHeight := ceil v, posted := posted s @ [ceil v]\<rparr>
           else s2\<lparr>lastHeight := ceil v\<rparr>)"
  by (simp add: postHeight.simps [of "Fin v" s] Let_def split: channel.splits)



lemma runMeasure_unfold:
  "runMeasure s =
     resetFallback
       (let h = max 0 (ceil (readMaxValue (layout s (measured s))));
            s2 = s\<lparr>frame := None, measured := Suc (measured s)\<rparr>
        in if h \<noteq> 0 then postHeight (Fin h) s2 else s2)"
  by (simp add: runMeasure.simps [of s] measureHeight_def Let_def)

lemma forced_unfold:
  "frame s = None \<Longrightarrow> timer s = None \<Longrightarrow> scheduleMeasure True s = runMeasure s"
  by (simp add: scheduleMeasure.simps [of True s])

lemma resetFallback_fields:
  "posted (resetFallback s) = posted s"
  "lastHeight (resetFallback s) = lastHeight s"
  "anomalyCount (resetFallback s) = anomalyCount s"
  "measured (resetFallback s) = measured s"
  "channel (resetFallback s) = channel s"
  "layout (resetFallback s) = layout s"
  "frame (resetFallback s) = frame s"
  "timer (resetFallback s) = timer s"
  by (simp_all add: resetFallback_def scheduleFallback_def setTimeout_def clearTimeout_def
      Let_def split: option.splits)

lemma ceil_reading: "ceil (max 0 (ceil x)) = max 0 (ceil x)"
  by (simp add: ceil_def max_def)

lemma reading_nonneg: "0 \<le> fst (measureHeight s)"
  by (simp add: measureHeight_def)

lemma ceil_fst_measureHeight: "ceil (fst (measureHeight s)) = fst (measureHeight s)"
  by (simp add: measureHeight_def ceil_reading)

lemma scheduleFallback_fields:
  "posted (scheduleFallback s) = posted s"
  "lastHeight (scheduleFallback s) = lastHeight s"
  "anomalyCount (scheduleFallback s) = anomalyCount s"
  "measured (scheduleFallback s) = measured s"
  "channel (scheduleFallback s) = channel s"
  "layout (scheduleFallback s) = layout s"
  "frame (scheduleFallback s) = frame s"
  "timer (scheduleFallback s) = timer s"
  "cleanup (scheduleFallback s) = cleanup s"
  "globalKey (scheduleFallback s) = globalKey s"
  by (simp_all add: scheduleFallback_def setTimeout_def Let_def)

lemma forced_measure_result:
  "\<exists>t. scheduleMeasure True s =
         resetFallback (if fst (measureHeight s) \<noteq> 0
                        then postHeight (Fin (fst (measureHeight s))) t else t)
       \<and> posted t = posted s \<and> lastHeight t = lastHeight s \<and> channel t = channel s
       \<and> anomalyCount t = anomalyCount s \<and> layout t = layout s
       \<and> measured t = Suc (measured s) \<and> frame t = None \<and> timer t = None"
proof -
  let ?s1 = "case frame s of Some i \<Rightarrow> (cancelFrame i s)\<lparr>frame := None\<rparr> | None \<Rightarrow> s"
  let ?s2 = "case timer ?s1 of Some i \<Rightarrow> (clearTimeout i ?s1)\<lparr>timer := None\<rparr> | None \<Rightarrow> ?s1"
  let ?t = "?s2\<lparr>frame := None, measured := Suc (measured ?s2)\<rparr>"
  have same: "posted ?s2 = posted s" "lastHeight ?s2 = lastHeight s" "channel ?s2 = channel s"
    "anomalyCount ?s2 = anomalyCount s" "layout ?s2 = layout s" "measured ?s2 = measured s"
    "timer ?s2 = None"
    by (simp_all add: cancelFrame_def clearTimeout_def split: option.splits)
  have m: "fst (measureHeight ?s2) = fst (measureHeight s)"
    by (simp add: measureHeight_def same)
  have "scheduleMeasure True s = runMeasure ?s2"
    by (simp add: scheduleMeasure.simps [of True s] Let_def)
  also have "\<dots> = resetFallback (if fst (measureHeight s) \<noteq> 0
                        then postHeight (Fin (fst (measureHeight s))) ?t else ?t)"
    by (subst runMeasure_unfold) (simp add: Let_def m [unfolded measureHeight_def, simplified] measureHeight_def same)
  finally have "scheduleMeasure True s = resetFallback (if fst (measureHeight s) \<noteq> 0
                        then postHeight (Fin (fst (measureHeight s))) ?t else ?t)" .
  moreover have "posted ?t = posted s \<and> lastHeight ?t = lastHeight s \<and> channel ?t = channel s
       \<and> anomalyCount ?t = anomalyCount s \<and> layout ?t = layout s
       \<and> measured ?t = Suc (measured s) \<and> frame ?t = None \<and> timer ?t = None"
    by (simp add: same)
  ultimately show ?thesis by blast
qed

lemma forced_measure_plain:
  assumes "fst (measureHeight s) \<le> 100000"
  shows "posted (scheduleMeasure True s) =
           (if fst (measureHeight s) \<noteq> 0 \<and> fst (measureHeight s) \<noteq> lastHeight s
               \<and> channel s = Accepting
            then posted s @ [fst (measureHeight s)] else posted s)
         \<and> lastHeight (scheduleMeasure True s) =
             (if fst (measureHeight s) \<noteq> 0 then fst (measureHeight s) else lastHeight s)
         \<and> anomalyCount (scheduleMeasure True s) =
             (if fst (measureHeight s) \<noteq> 0 then 0 else anomalyCount s)
         \<and> measured (scheduleMeasure True s) = Suc (measured s)
         \<and> frame (scheduleMeasure True s) = None \<and> timer (scheduleMeasure True s) = None
         \<and> channel (scheduleMeasure True s) = channel s
         \<and> layout (scheduleMeasure True s) = layout s"
proof -
  let ?m = "fst (measureHeight s)"
  obtain t where e: "scheduleMeasure True s =
         resetFallback (if ?m \<noteq> 0 then postHeight (Fin ?m) t else t)"
    and t: "posted t = posted s" "lastHeight t = lastHeight s" "channel t = channel s"
      "anomalyCount t = anomalyCount s" "layout t = layout s"
      "measured t = Suc (measured s)" "frame t = None" "timer t = None"
    using forced_measure_result [of s] by blast
  show ?thesis
  proof (cases "?m = 0")
    case True
    then show ?thesis by (simp add: e t resetFallback_fields)
  next
    case False
    then have pos: "0 < ?m" using reading_nonneg [of s] by simp
    have le: "ceil ?m \<le> 100000" using assms by (simp add: ceil_fst_measureHeight)
    show ?thesis
      using False
      by (simp add: e t resetFallback_fields postHeight_plain [OF pos le] Let_def
          ceil_fst_measureHeight)
  qed
qed

subsection \<open>The load counter\<close>

lemma pendingLoads_loadingStep:
  "0 \<le> pendingLoads s \<Longrightarrow> 0 \<le> pendingLoads (loadingStep c s)"
  by (cases c)
     (simp_all add: markLoading_def clearLoading_def scheduleFallback_def setTimeout_def Let_def)

text \<open>
  C10. \<open>pendingLoads\<close> starts at 0 and is a JavaScript number that could go below it; it
  does not: from any state where it is not negative, every state passed through by any
  sequence of \<open>markLoading\<close> and \<open>clearLoading\<close> calls has it not negative, extra
  \<open>clearLoading\<close> calls included, since the decrement runs only when the counter is above 0.
\<close>

theorem pendingLoads_never_negative:
  assumes "0 \<le> pendingLoads s" and "s' \<in> set (loadingTrace cs s)"
  shows "0 \<le> pendingLoads s'"
  using assms
proof (induction cs arbitrary: s)
  case Nil
  then show ?case by simp
next
  case (Cons c cs)
  then show ?case
    using pendingLoads_loadingStep [of s c] by auto
qed

theorem pendingLoads_never_negative_witness:
  "map pendingLoads
     (loadingTrace [ClearLoading, MarkLoading, MarkLoading, ClearLoading, ClearLoading, ClearLoading]
        (document Accepting (\<lambda>n. []) True))
   = [0, 0, 1, 2, 1, 0, 0]
   \<and> 0 \<le> pendingLoads (loadingStep ClearLoading (document Accepting (\<lambda>n. []) True))"
proof -
  let ?d = "document Accepting (\<lambda>n. []) True"
  have a: "0 \<le> pendingLoads ?d" by (simp add: document_def)
  have b: "loadingStep ClearLoading ?d \<in> set (loadingTrace [ClearLoading] ?d)" by simp
  have "map pendingLoads
     (loadingTrace [ClearLoading, MarkLoading, MarkLoading, ClearLoading, ClearLoading, ClearLoading] ?d)
   = [0, 0, 1, 2, 1, 0, 0]"
    by (simp add: document_def markLoading_def clearLoading_def scheduleFallback_def
        setTimeout_def Let_def)
  then show ?thesis
    using pendingLoads_never_negative [OF a b] by simp
qed

subsection \<open>Idempotent installation\<close>

lemma globalKey_bootstrap: "globalKey (bootstrap s) = globalKey s"
proof -
  have k: "globalKey (scheduleFallback (scheduleMeasure True t)) = globalKey t" for t
    using measure_frame_scheduleFallback [OF measure_frame_all(2) [of t True]] by (simp add: measure_frame_def)
  show ?thesis
    by (simp add: bootstrap_def Let_def k addEvent_def addCleanup_def queueStabilization_def
        scheduleTimeout_def setTimeout_def watchMessages_def observeGlobalEvents_def
        observeFonts_def observeViewport_def observeResize_def observeMutations_def)
qed

lemma globalKey_install: "globalKey (install s)"
  using measure_frame_all(2) [of s True]
  by (auto simp: install_def refresh_def measure_frame_def ensureDomReady_def globalKey_bootstrap)

lemma cleanup_bootstrap_ready:
  "cleanup (install (document ch lay True)) =
     [Disconnect ''MutationObserver'', Disconnect ''ResizeObserver'',
      Listener ''visualViewport'' ''resize'', Listener ''visualViewport'' ''scroll'',
      Listener ''fonts'' ''loadingdone'', Listener ''fonts'' ''loadingerror'',
      Listener ''window'' ''load'', Listener ''window'' ''pageshow'',
      Listener ''window'' ''orientationchange'', Listener ''window'' ''resize'',
      Listener ''document'' ''DOMContentLoaded'', Listener ''document'' ''readystatechange'',
      Listener ''window'' ''message'',
      ClearTimeout 1, ClearTimeout 2, ClearTimeout 3, ClearTimeout 4, ClearTimeout 5,
      ClearTimeout 6, ClearTimeout 7,
      Listener ''window'' ''unload'']"
proof -
  have k: "cleanup (scheduleFallback (scheduleMeasure True t)) = cleanup t" for t
    using measure_frame_scheduleFallback [OF measure_frame_all(2) [of t True]] by (simp add: measure_frame_def)
  show ?thesis
    by (simp add: install_def document_def ensureDomReady_def bootstrap_def Let_def k
        addEvent_def addCleanup_def queueStabilization_def
        scheduleTimeout_def setTimeout_def watchMessages_def observeGlobalEvents_def
        observeFonts_def observeViewport_def observeResize_def observeMutations_def)
qed


lemma addCleanup_fields:
  "posted (addCleanup r s) = posted s"
  "lastHeight (addCleanup r s) = lastHeight s"
  "anomalyCount (addCleanup r s) = anomalyCount s"
  "channel (addCleanup r s) = channel s"
  "layout (addCleanup r s) = layout s"
  "measured (addCleanup r s) = measured s"
  by (simp_all add: addCleanup_def)

lemma scheduleTimeout_fields:
  "posted (scheduleTimeout d s) = posted s"
  "lastHeight (scheduleTimeout d s) = lastHeight s"
  "anomalyCount (scheduleTimeout d s) = anomalyCount s"
  "channel (scheduleTimeout d s) = channel s"
  "layout (scheduleTimeout d s) = layout s"
  "measured (scheduleTimeout d s) = measured s"
  by (simp_all add: scheduleTimeout_def setTimeout_def addCleanup_def)

lemma observers_fields:
  "posted (observeMutations s) = posted s"
  "lastHeight (observeMutations s) = lastHeight s"
  "anomalyCount (observeMutations s) = anomalyCount s"
  "channel (observeMutations s) = channel s"
  "layout (observeMutations s) = layout s"
  "measured (observeMutations s) = measured s"
  "posted (observeResize s) = posted s"
  "lastHeight (observeResize s) = lastHeight s"
  "anomalyCount (observeResize s) = anomalyCount s"
  "channel (observeResize s) = channel s"
  "layout (observeResize s) = layout s"
  "measured (observeResize s) = measured s"
  "posted (observeViewport s) = posted s"
  "lastHeight (observeViewport s) = lastHeight s"
  "anomalyCount (observeViewport s) = anomalyCount s"
  "channel (observeViewport s) = channel s"
  "layout (observeViewport s) = layout s"
  "measured (observeViewport s) = measured s"
  "posted (observeFonts s) = posted s"
  "lastHeight (observeFonts s) = lastHeight s"
  "anomalyCount (observeFonts s) = anomalyCount s"
  "channel (observeFonts s) = channel s"
  "layout (observeFonts s) = layout s"
  "measured (observeFonts s) = measured s"
  by (simp_all add: observeMutations_def observeResize_def observeViewport_def
      observeFonts_def addEvent_def addCleanup_fields)

lemma listeners_fields:
  "posted (observeGlobalEvents s) = posted s"
  "lastHeight (observeGlobalEvents s) = lastHeight s"
  "anomalyCount (observeGlobalEvents s) = anomalyCount s"
  "channel (observeGlobalEvents s) = channel s"
  "layout (observeGlobalEvents s) = layout s"
  "measured (observeGlobalEvents s) = measured s"
  "posted (watchMessages s) = posted s"
  "lastHeight (watchMessages s) = lastHeight s"
  "anomalyCount (watchMessages s) = anomalyCount s"
  "channel (watchMessages s) = channel s"
  "layout (watchMessages s) = layout s"
  "measured (watchMessages s) = measured s"
  "posted (queueStabilization s) = posted s"
  "lastHeight (queueStabilization s) = lastHeight s"
  "anomalyCount (queueStabilization s) = anomalyCount s"
  "channel (queueStabilization s) = channel s"
  "layout (queueStabilization s) = layout s"
  "measured (queueStabilization s) = measured s"
  "posted (addEvent a b s) = posted s"
  "lastHeight (addEvent a b s) = lastHeight s"
  "anomalyCount (addEvent a b s) = anomalyCount s"
  "channel (addEvent a b s) = channel s"
  "layout (addEvent a b s) = layout s"
  "measured (addEvent a b s) = measured s"
  by (simp_all add: observeGlobalEvents_def watchMessages_def queueStabilization_def
      addEvent_def addCleanup_fields scheduleTimeout_fields Let_def)

lemma install_first:
  assumes "\<not> globalKey s" and "ready s"
  shows "\<exists>t. install s = scheduleFallback (scheduleMeasure True t)
          \<and> posted t = posted s \<and> lastHeight t = 0 \<and> anomalyCount t = 0
          \<and> channel t = channel s \<and> layout t = layout s \<and> measured t = measured s"
proof -
  let ?fresh = "s\<lparr>globalKey := True, frame := None, timer := None, microtask := False,
                pendingLoads := 0, lastHeight := 0, lastCssHeight := Fin 0,
                anomalyCount := 0, fallbackTimer := None,
                fallbackDelay := INITIAL_FALLBACK_MS, cleanup := []\<rparr>"
  let ?t = "addEvent ''window'' ''unload'' (queueStabilization (watchMessages
              (observeGlobalEvents (observeFonts (observeViewport (observeResize
                (observeMutations ?fresh)))))))"
  have "install s = scheduleFallback (scheduleMeasure True ?t)"
    using assms by (simp add: install_def ensureDomReady_def bootstrap_def Let_def)
  moreover have "posted ?t = posted s \<and> lastHeight ?t = 0 \<and> anomalyCount ?t = 0
          \<and> channel ?t = channel s \<and> layout ?t = layout s \<and> measured ?t = measured s"
    by (simp add: observers_fields listeners_fields)
  ultimately show ?thesis by blast
qed

lemma initialized_attach: "initialized (attach r w) = initialized w"
  by (simp add: attach_def)

lemma initialized_runHeightUpdate: "initialized (runHeightUpdate w) = initialized w"
  by (simp add: runHeightUpdate_def Let_def split: option.splits)

lemma initialized_scheduleHeightUpdate: "initialized (scheduleHeightUpdate w) = initialized w"
  by (simp add: scheduleHeightUpdate_def Let_def initialized_runHeightUpdate
      split: option.splits)

lemma initialized_attachments:
  "initialized (attachMutationObserver w) = initialized w"
  "initialized (attachResizeObserver w) = initialized w"
  "initialized (attachVisualViewport w) = initialized w"
  "initialized (attachFontLoadListeners w) = initialized w"
  "initialized (attachGlobalListeners w) = initialized w"
  by (simp_all add: attachMutationObserver_def attachResizeObserver_def
      attachVisualViewport_def attachFontLoadListeners_def attachGlobalListeners_def
      initialized_attach Let_def)

lemma initialized_bootstrap_flag: "initialized (bootstrap_flag w) = initialized w"
  by (simp add: bootstrap_flag_def Let_def initialized_attachments
      initialized_scheduleHeightUpdate)

lemma initialized_install_flag: "initialized (install_flag w)"
  by (simp add: install_flag_def initialized_bootstrap_flag initialized_attach)

text \<open>
  C4, as the code has it. In the revision with a session object, a run of the script in
  a document whose \<open>window[GLOBAL_KEY]\<close> already holds a session is the session's
  \<open>refresh\<close>: it registers no listener, observer or timer cleanup beyond those already
  there, leaves no second bootstrap waiting, keeps the key, and measures the document at
  once. When that measurement is at most 100000, it is the height recorded, it is posted
  if it is positive, differs from the height recorded before and the channel takes it,
  and no frame or debounce timer is left pending. In the revision guarded by the flag, a
  run in a document where the flag is set changes nothing at all.
\<close>

theorem install_idempotent:
  "(globalKey s \<longrightarrow>
      install s = refresh s
      \<and> cleanup (install s) = cleanup s
      \<and> awaitingReady (install s) = awaitingReady s
      \<and> globalKey (install s)
      \<and> measured s < measured (install s)
      \<and> (fst (measureHeight s) \<le> 100000 \<longrightarrow>
           posted (install s) =
             (if fst (measureHeight s) \<noteq> 0 \<and> fst (measureHeight s) \<noteq> lastHeight s
                 \<and> channel s = Accepting
              then posted s @ [fst (measureHeight s)] else posted s)
           \<and> lastHeight (install s) =
               (if fst (measureHeight s) \<noteq> 0 then fst (measureHeight s) else lastHeight s)
           \<and> measured (install s) = Suc (measured s)
           \<and> frame (install s) = None \<and> timer (install s) = None))
   \<and> (initialized w \<longrightarrow> install_flag w = w)"
proof -
  have 1: "install s = refresh s \<and> cleanup (install s) = cleanup s
      \<and> awaitingReady (install s) = awaitingReady s \<and> globalKey (install s)
      \<and> measured s < measured (install s)" if "globalKey s"
    using that measure_frame_all(2) [of s True] forced_measure_measures [of s]
    by (simp add: install_def refresh_def measure_frame_def)
  have 2: "posted (install s) =
             (if fst (measureHeight s) \<noteq> 0 \<and> fst (measureHeight s) \<noteq> lastHeight s
                 \<and> channel s = Accepting
              then posted s @ [fst (measureHeight s)] else posted s)
           \<and> lastHeight (install s) =
               (if fst (measureHeight s) \<noteq> 0 then fst (measureHeight s) else lastHeight s)
           \<and> measured (install s) = Suc (measured s)
           \<and> frame (install s) = None \<and> timer (install s) = None"
    if "globalKey s" "fst (measureHeight s) \<le> 100000"
    using that(1) forced_measure_plain [OF that(2)]
    by (simp add: install_def refresh_def)
  have 3: "install_flag w = w" if "initialized w"
    using that by (simp add: install_flag_def)
  from 1 2 3 show ?thesis by blast
qed

theorem install_idempotent_witness:
  "posted (install (document Accepting (\<lambda>n. if n = 0 then [500] else [700.5]) True)) = [500]
   \<and> posted (install (install
        (document Accepting (\<lambda>n. if n = 0 then [500] else [700.5]) True))) = [500, 701]
   \<and> lastHeight (install (install
        (document Accepting (\<lambda>n. if n = 0 then [500] else [700.5]) True))) = 701
   \<and> measured (install (install
        (document Accepting (\<lambda>n. if n = 0 then [500] else [700.5]) True))) = 2
   \<and> cleanup (install (install
        (document Accepting (\<lambda>n. if n = 0 then [500] else [700.5]) True)))
       = cleanup (install (document Accepting (\<lambda>n. if n = 0 then [500] else [700.5]) True))
   \<and> install_flag (document_flag\<lparr>initialized := True\<rparr>) = document_flag\<lparr>initialized := True\<rparr>"
proof -
  let ?d = "document Accepting (\<lambda>n. if n = 0 then [500] else [700.5]) True"
  let ?s = "install ?d"
  have d: "\<not> globalKey ?d" "ready ?d" "posted ?d = []" "channel ?d = Accepting"
    "measured ?d = 0"
    by (simp_all add: document_def)
  obtain t where e: "?s = scheduleFallback (scheduleMeasure True t)"
    and t: "posted t = posted ?d" "lastHeight t = 0" "anomalyCount t = 0"
      "channel t = channel ?d" "layout t = layout ?d" "measured t = measured ?d"
    using install_first [OF d(1) d(2)] by blast
  have m0: "fst (measureHeight t) = 500"
    unfolding measureHeight_def fst_conv t
    by (simp add: document_def readMaxValue_def ceil_def)
  have le0: "fst (measureHeight t) \<le> 100000" unfolding m0 by simp
  have s: "posted ?s = [500]" "lastHeight ?s = 500" "measured ?s = 1"
    "channel ?s = Accepting" "layout ?s = layout ?d"
    using forced_measure_plain [OF le0] unfolding m0
    by (simp_all add: e scheduleFallback_fields t d)
  have g: "globalKey ?s" by (rule globalKey_install)
  have m1: "fst (measureHeight ?s) = 701"
    unfolding measureHeight_def fst_conv s
    by (simp add: document_def readMaxValue_def ceil_def)
  have le1: "fst (measureHeight ?s) \<le> 100000" unfolding m1 by simp
  have w: "initialized (document_flag\<lparr>initialized := True\<rparr>)" by simp
  from install_idempotent [of ?s "document_flag\<lparr>initialized := True\<rparr>"] g le1 w
  have "cleanup (install ?s) = cleanup ?s
      \<and> posted (install ?s) =
             (if fst (measureHeight ?s) \<noteq> 0 \<and> fst (measureHeight ?s) \<noteq> lastHeight ?s
                 \<and> channel ?s = Accepting
              then posted ?s @ [fst (measureHeight ?s)] else posted ?s)
      \<and> lastHeight (install ?s) =
               (if fst (measureHeight ?s) \<noteq> 0 then fst (measureHeight ?s) else lastHeight ?s)
      \<and> measured (install ?s) = Suc (measured ?s)
      \<and> install_flag (document_flag\<lparr>initialized := True\<rparr>)
          = document_flag\<lparr>initialized := True\<rparr>"
    by blast
  then show ?thesis
    unfolding m1 s by simp
qed

text \<open>
  C4 as stated fails for the revision guarded by the flag: its second run returns at the
  guard, so it attaches nothing, but it also requests no frame and arms no timer, and no
  measurement follows from it. The one frame requested is the one of the first run.
\<close>

theorem second_run_of_flag_revision_measures_nothing:
  "install_flag (install_flag document_flag) = install_flag document_flag
   \<and> requestedFrames (install_flag document_flag) = [1]
   \<and> requestedFrames (install_flag (install_flag document_flag)) = [1]"
proof -
  have e: "install_flag (install_flag document_flag) = install_flag document_flag"
    using initialized_install_flag [of document_flag]
    by (simp add: install_flag_def [of "install_flag document_flag"])
  have f: "requestedFrames (install_flag document_flag) = [1]"
    by code_simp
  show ?thesis by (simp add: e f)
qed

subsection \<open>De-duplication of posted heights\<close>

text \<open>
  C8, as the code has it. A call of \<open>postHeight\<close> hands the channel at most one message,
  the height it has just recorded in \<open>lastHeight\<close>, positive and different from the height
  recorded before; a candidate that is not a number, not finite or not positive changes
  neither the messages nor the record. For a positive candidate whose ceiling is at most
  100000 the record becomes that ceiling whether or not the channel takes the message, and
  the message is sent exactly when the ceiling differs from the recorded height and the
  channel takes it. So the comparison is with the last height recorded, not with the last
  height the channel took; going from \<open>a\<close> to \<open>b\<close> and back to \<open>a\<close> posts all three.
\<close>

theorem postHeight_dedup:
  "(posted (postHeight h s) = posted s
    \<or> (posted (postHeight h s) = posted s @ [lastHeight (postHeight h s)]
        \<and> 0 < lastHeight (postHeight h s)
        \<and> lastHeight (postHeight h s) \<noteq> lastHeight s \<and> channel s = Accepting))
   \<and> ((case h of Fin x \<Rightarrow> x \<le> 0 | _ \<Rightarrow> True) \<longrightarrow>
         posted (postHeight h s) = posted s \<and> lastHeight (postHeight h s) = lastHeight s)
   \<and> (0 < v \<and> ceil v \<le> 100000 \<longrightarrow>
         posted (postHeight (Fin v) s) =
           (if ceil v \<noteq> lastHeight s \<and> channel s = Accepting
            then posted s @ [ceil v] else posted s)
         \<and> lastHeight (postHeight (Fin v) s) = ceil v)
   \<and> (channel s = Accepting \<and> 0 < a \<and> 0 < b \<and> ceil a \<le> 100000 \<and> ceil b \<le> 100000
        \<and> ceil a \<noteq> ceil b \<and> lastHeight s \<noteq> ceil a \<longrightarrow>
         posted (postHeight (Fin a) (postHeight (Fin b) (postHeight (Fin a) s)))
           = posted s @ [ceil a, ceil b, ceil a])"
proof -
  have 1: "posted (postHeight h s) = posted s
    \<or> (posted (postHeight h s) = posted s @ [lastHeight (postHeight h s)]
        \<and> 0 < lastHeight (postHeight h s)
        \<and> lastHeight (postHeight h s) \<noteq> lastHeight s \<and> channel s = Accepting)"
    using measure_frame_all(1) [of s h] by (auto simp: measure_frame_def)
  have 2: "(case h of Fin x \<Rightarrow> x \<le> 0 | _ \<Rightarrow> True) \<longrightarrow>
         posted (postHeight h s) = posted s \<and> lastHeight (postHeight h s) = lastHeight s"
    using postHeight_rejects [of h s] by simp
  have 3: "0 < v \<and> ceil v \<le> 100000 \<longrightarrow>
         posted (postHeight (Fin v) s) =
           (if ceil v \<noteq> lastHeight s \<and> channel s = Accepting
            then posted s @ [ceil v] else posted s)
         \<and> lastHeight (postHeight (Fin v) s) = ceil v"
    by (auto simp: postHeight_plain Let_def)
  have 4: "channel s = Accepting \<and> 0 < a \<and> 0 < b \<and> ceil a \<le> 100000 \<and> ceil b \<le> 100000
        \<and> ceil a \<noteq> ceil b \<and> lastHeight s \<noteq> ceil a \<longrightarrow>
         posted (postHeight (Fin a) (postHeight (Fin b) (postHeight (Fin a) s)))
           = posted s @ [ceil a, ceil b, ceil a]"
    by (auto simp: postHeight_plain Let_def)
  from 1 2 3 4 show ?thesis by blast
qed

theorem postHeight_dedup_witness:
  "posted (postHeight (Fin 500) (postHeight (Fin 640.5) (postHeight (Fin 500)
      (document Accepting (\<lambda>n. []) True)))) = [500, 641, 500]
   \<and> posted (postHeight (Fin 500) (postHeight (Fin 499.5)
      (document Accepting (\<lambda>n. []) True))) = [500]
   \<and> posted (postHeight PInf (document Accepting (\<lambda>n. []) True)) = []
   \<and> posted (postHeight (Fin (- 3)) (document Accepting (\<lambda>n. []) True)) = []"
proof -
  let ?d = "document Accepting (\<lambda>n. []) True"
  have d: "channel ?d = Accepting" "lastHeight ?d = 0" "posted ?d = []"
    by (simp_all add: document_def)
  have c: "ceil 500 = 500" "ceil 640.5 = 641" "ceil 499.5 = 500"
    by (simp_all add: ceil_def)
  have p: "(0::real) < 500" "(0::real) < 640.5" "(0::real) < 499.5"
    "(500::real) \<le> 100000" "(641::real) \<le> 100000" "(500::real) \<noteq> 641" "(0::real) \<noteq> 500"
    by simp_all
  have 1: "posted (postHeight (Fin 500) (postHeight (Fin 640.5) (postHeight (Fin 500) ?d)))
      = [500, 641, 500]"
    using postHeight_dedup [of "Fin 500" ?d 500 500 "640.5", unfolded c d] p by auto
  have 2: "posted (postHeight (Fin 499.5) ?d) = [500]
      \<and> lastHeight (postHeight (Fin 499.5) ?d) = 500"
    using postHeight_dedup [of "Fin 500" ?d "499.5" 500 500, unfolded c d] p by auto
  have 3: "posted (postHeight (Fin 500) (postHeight (Fin 499.5) ?d)) = [500]"
    using postHeight_dedup [of "Fin 500" "postHeight (Fin 499.5) ?d" 500 500 500, unfolded c] 2 p
    by auto
  have 4: "posted (postHeight PInf ?d) = []"
    using postHeight_dedup [of PInf ?d 500 500 500, unfolded d] by simp
  have 5: "posted (postHeight (Fin (- 3)) ?d) = []"
    using postHeight_dedup [of "Fin (- 3)" ?d 500 500 500, unfolded d] by simp
  from 1 3 4 5 show ?thesis by blast
qed

text \<open>
  C8 as stated fails: the height is recorded before the message is handed over. With a
  channel that throws (or is missing), 500 is recorded and nothing is posted; when the
  channel works again, the next candidate 500 equals the record and is dropped, so the
  height that failed to post is suppressed at the next attempt.
\<close>

theorem failed_post_is_suppressed:
  "posted (postHeight (Fin 500)
      ((postHeight (Fin 500) (document Throwing (\<lambda>n. []) True))\<lparr>channel := Accepting\<rparr>)) = []
   \<and> lastHeight (postHeight (Fin 500) (document Throwing (\<lambda>n. []) True)) = 500
   \<and> posted (postHeight (Fin 500)
      ((postHeight (Fin 500) (document Absent (\<lambda>n. []) True))\<lparr>channel := Accepting\<rparr>)) = []"
proof -
  have c: "ceil 500 = 500" by (simp add: ceil_def)
  show ?thesis
    by (simp add: postHeight_plain c Let_def document_def)
qed

subsection \<open>Anomaly guard\<close>







end
